theory Spec2Isabelle
  imports Main "HOL-Library.Sublist" "HOL-Library.AList"
begin

section \<open>JSON text as Go's encoding/json reads it\<close>

text \<open>
  The transport decodes every line of the child's standard output with
  \<^verbatim>\<open>json.Unmarshal\<close>. The functions of this section model that library: the scanner
  that accepts or rejects a byte string (\<^verbatim>\<open>checkValid\<close>), the unquoting of string
  literals, and the view of one value that the decoder dispatches on. Bytes are
  \<^typ>\<open>char\<close>, a byte string is a \<^typ>\<open>string\<close>.
\<close>

definition isSpace :: "char \<Rightarrow> bool" where
  "isSpace c \<longleftrightarrow> c = CHR 0x20 \<or> c = CHR 0x09 \<or> c = CHR 0x0D \<or> c = CHR 0x0A"

definition skip_ws :: "string \<Rightarrow> string" where
  "skip_ws s = dropWhile isSpace s"

definition isDigit :: "char \<Rightarrow> bool" where
  "isDigit c \<longleftrightarrow> (48::int) \<le> of_char c \<and> of_char c \<le> (57::int)"

definition isHex :: "char \<Rightarrow> bool" where
  "isHex c \<longleftrightarrow> isDigit c \<or> ((97::int) \<le> of_char c \<and> of_char c \<le> (102::int))
      \<or> ((65::int) \<le> of_char c \<and> of_char c \<le> (70::int))"

definition hexval :: "char \<Rightarrow> int" where
  "hexval c = (let n = of_char c in if n \<le> 57 then n - 48 else if n \<le> 70 then n - 55 else n - 87)"

definition hex4 :: "char \<Rightarrow> char \<Rightarrow> char \<Rightarrow> char \<Rightarrow> int" where
  "hex4 a b c d = ((hexval a * 16 + hexval b) * 16 + hexval c) * 16 + hexval d"

text \<open>\<^verbatim>\<open>utf8.EncodeRune\<close>: surrogates and values above U+10FFFF become U+FFFD.\<close>

definition utf8_encode :: "int \<Rightarrow> string" where
  "utf8_encode r =
     (if r < 0x80 then [char_of r]
      else if r < 0x800 then [char_of (0xC0 + r div 64), char_of (0x80 + r mod 64)]
      else if (0xD800 \<le> r \<and> r < 0xE000) \<or> 0x10FFFF < r then [CHR 0xEF, CHR 0xBF, CHR 0xBD]
      else if r < 0x10000 then
        [char_of (0xE0 + r div 4096), char_of (0x80 + (r div 64) mod 64), char_of (0x80 + r mod 64)]
      else
        [char_of (0xF0 + r div 262144), char_of (0x80 + (r div 4096) mod 64),
         char_of (0x80 + (r div 64) mod 64), char_of (0x80 + r mod 64)])"

definition isCont :: "char \<Rightarrow> bool" where
  "isCont c \<longleftrightarrow> (0x80::int) \<le> of_char c \<and> of_char c \<le> (0xBF::int)"

text \<open>
  The length of the well-formed multi-byte UTF-8 sequence that starts with the byte
  \<open>c\<close> followed by \<open>cs\<close>, and 0 when there is none (\<^verbatim>\<open>utf8.DecodeRune\<close> then yields
  U+FFFD of width 1).
\<close>

definition utf8_width :: "char \<Rightarrow> string \<Rightarrow> nat" where
  "utf8_width c cs =
     (let b0 = (of_char c :: int) in
      if 0xC2 \<le> b0 \<and> b0 \<le> 0xDF then
        (case cs of b1 # _ \<Rightarrow> if isCont b1 then 2 else 0 | _ \<Rightarrow> 0)
      else if 0xE0 \<le> b0 \<and> b0 \<le> 0xEF then
        (case cs of
           b1 # b2 # _ \<Rightarrow>
             if isCont b1 \<and> isCont b2
                \<and> (b0 = 0xE0 \<longrightarrow> (0xA0::int) \<le> of_char b1)
                \<and> (b0 = 0xED \<longrightarrow> of_char b1 \<le> (0x9F::int))
             then 3 else 0
         | _ \<Rightarrow> 0)
      else if 0xF0 \<le> b0 \<and> b0 \<le> 0xF4 then
        (case cs of
           b1 # b2 # b3 # _ \<Rightarrow>
             if isCont b1 \<and> isCont b2 \<and> isCont b3
                \<and> (b0 = 0xF0 \<longrightarrow> (0x90::int) \<le> of_char b1)
                \<and> (b0 = 0xF4 \<longrightarrow> of_char b1 \<le> (0x8F::int))
             then 4 else 0
         | _ \<Rightarrow> 0)
      else 0)"

definition unescape :: "char \<Rightarrow> char" where
  "unescape e =
     (if e = CHR ''b'' then CHR 0x08 else if e = CHR ''f'' then CHR 0x0C
      else if e = CHR ''n'' then CHR 0x0A else if e = CHR ''r'' then CHR 0x0D
      else if e = CHR ''t'' then CHR 0x09 else e)"

text \<open>
  The scanner inside a string literal, after the opening quote: the raw bytes up
  to the closing quote and the rest of the input. Control characters and unknown
  escapes are syntax errors.
\<close>

fun scan_string :: "string \<Rightarrow> (string \<times> string) option" where
  "scan_string [] = None"
| "scan_string (c # cs) =
    (if c = CHR 0x22 then Some ([], cs)
     else if c = CHR 0x5C then
       (case cs of
          [] \<Rightarrow> None
        | e # r \<Rightarrow>
            if e = CHR ''u'' then
              (case r of
                 h1 # h2 # h3 # h4 # r' \<Rightarrow>
                   if isHex h1 \<and> isHex h2 \<and> isHex h3 \<and> isHex h4
                   then map_option (\<lambda>(s, t). (c # e # h1 # h2 # h3 # h4 # s, t)) (scan_string r')
                   else None
               | _ \<Rightarrow> None)
            else if e \<in> set [CHR 0x22, CHR 0x5C, CHR ''/'', CHR ''b'', CHR ''f'', CHR ''n'',
                              CHR ''r'', CHR ''t'']
            then map_option (\<lambda>(s, t). (c # e # s, t)) (scan_string r)
            else None)
     else if (of_char c :: int) < 0x20 then None
     else map_option (\<lambda>(s, t). (c # s, t)) (scan_string cs))"

text \<open>
  \<^verbatim>\<open>unquote\<close> on the raw bytes of a scanned literal: escapes are replaced, a
  \<^verbatim>\<open>\u\<close> surrogate pair is combined, a lone surrogate and every ill-formed UTF-8
  byte become U+FFFD.
\<close>

fun unquote :: "string \<Rightarrow> string" where
  "unquote [] = []"
| "unquote (c # cs) =
    (if c = CHR 0x5C then
       (case cs of
          [] \<Rightarrow> []
        | e # r \<Rightarrow>
            if e = CHR ''u'' then
              (case r of
                 h1 # h2 # h3 # h4 # r' \<Rightarrow>
                   if 0xD800 \<le> hex4 h1 h2 h3 h4 \<and> hex4 h1 h2 h3 h4 < 0xE000 then
                     (case r' of
                        b # u # g1 # g2 # g3 # g4 # r'' \<Rightarrow>
                          if b = CHR 0x5C \<and> u = CHR ''u'' \<and> isHex g1 \<and> isHex g2 \<and> isHex g3 \<and> isHex g4
                             \<and> hex4 h1 h2 h3 h4 < 0xDC00
                             \<and> 0xDC00 \<le> hex4 g1 g2 g3 g4 \<and> hex4 g1 g2 g3 g4 < 0xE000
                          then utf8_encode ((hex4 h1 h2 h3 h4 - 0xD800) * 1024
                                 + (hex4 g1 g2 g3 g4 - 0xDC00) + 0x10000) @ unquote r''
                          else utf8_encode 0xFFFD @ unquote r'
                      | _ \<Rightarrow> utf8_encode 0xFFFD @ unquote r')
                   else utf8_encode (hex4 h1 h2 h3 h4) @ unquote r'
               | _ \<Rightarrow> [])
            else unescape e # unquote r)
     else if (of_char c :: int) < 0x80 then c # unquote cs
     else if utf8_width c cs = 2 then
       (case cs of b1 # r \<Rightarrow> c # b1 # unquote r | _ \<Rightarrow> [])
     else if utf8_width c cs = 3 then
       (case cs of b1 # b2 # r \<Rightarrow> c # b1 # b2 # unquote r | _ \<Rightarrow> [])
     else if utf8_width c cs = 4 then
       (case cs of b1 # b2 # b3 # r \<Rightarrow> c # b1 # b2 # b3 # unquote r | _ \<Rightarrow> [])
     else utf8_encode 0xFFFD @ unquote cs)"

definition scan_digits :: "string \<Rightarrow> (string \<times> string) option" where
  "scan_digits s =
     (if takeWhile isDigit s = [] then None else Some (takeWhile isDigit s, dropWhile isDigit s))"

text \<open>
  A number literal split into sign, integer part, fraction digits and exponent
  (with its sign), and the rest of the input.
\<close>

definition scan_number :: "string \<Rightarrow> ((string \<times> string \<times> string \<times> string) \<times> string) option" where
  "scan_number s =
     (let (sign, s1) = (case s of c # r \<Rightarrow> if c = CHR ''-'' then ([c], r) else ([], s) | [] \<Rightarrow> ([], s)) in
      case (case s1 of [] \<Rightarrow> None
            | c # r \<Rightarrow> if c = CHR ''0'' then Some ([c], r) else scan_digits s1) of
        None \<Rightarrow> None
      | Some (ip, s2) \<Rightarrow>
          (case (case s2 of
                   c # r \<Rightarrow> if c = CHR ''.'' then scan_digits r else Some ([], s2)
                 | [] \<Rightarrow> Some ([], s2)) of
             None \<Rightarrow> None
           | Some (fp, s3) \<Rightarrow>
              (case (case s3 of
                       c # r \<Rightarrow>
                         if c = CHR ''e'' \<or> c = CHR ''E'' then
                           (case r of
                              c' # r' \<Rightarrow>
                                if c' = CHR ''-'' then map_option (\<lambda>(ds, t). (c' # ds, t)) (scan_digits r')
                                else if c' = CHR ''+'' then scan_digits r'
                                else scan_digits r
                            | [] \<Rightarrow> None)
                         else Some ([], s3)
                     | [] \<Rightarrow> Some ([], s3)) of
                 None \<Rightarrow> None
               | Some (ep, s4) \<Rightarrow> Some ((sign, ip, fp, ep), s4))))"

definition scan_lit :: "string \<Rightarrow> string \<Rightarrow> string option" where
  "scan_lit lit s = (if take (length lit) s = lit then Some (drop (length lit) s) else None)"

text \<open>
  One JSON value as the decoder sees it: its kind, and for an array or an object
  the raw text of each element or member value, which is what a
  \<^verbatim>\<open>json.RawMessage\<close> field receives and what the decoder of a nested field reads.
  Member names and strings are unquoted. A number keeps the parts of its literal.
\<close>

datatype jvalue = JNull | JBool bool | JNumber "string \<times> string \<times> string \<times> string"
  | JString string | JArray "string list" | JObject "(string \<times> string) list"

definition maxNestingDepth :: nat where
  "maxNestingDepth = 10000"

text \<open>
  The scanner, on input that starts at a value. The first argument bounds the
  number of calls; every call consumes input before the next one, so
  \<open>2 * length s + 1\<close> is never exhausted on an input \<open>s\<close>. The second argument is the
  nesting depth, which the library limits to \<^const>\<open>maxNestingDepth\<close>.
\<close>

fun scan_value :: "nat \<Rightarrow> nat \<Rightarrow> string \<Rightarrow> (jvalue \<times> string) option"
and scan_elems :: "nat \<Rightarrow> nat \<Rightarrow> string \<Rightarrow> (string list \<times> string) option"
and scan_members :: "nat \<Rightarrow> nat \<Rightarrow> string \<Rightarrow> ((string \<times> string) list \<times> string) option"
where
  "scan_value 0 d s = None"
| "scan_value (Suc n) d s =
     (case s of
        [] \<Rightarrow> None
      | c # cs \<Rightarrow>
          if c = CHR ''{'' then
            (if maxNestingDepth \<le> d then None
             else case skip_ws cs of
                    [] \<Rightarrow> None
                  | c' # r \<Rightarrow>
                      if c' = CHR ''}'' then Some (JObject [], r)
                      else map_option (\<lambda>(ms, t). (JObject ms, t)) (scan_members n (Suc d) (skip_ws cs)))
          else if c = CHR ''['' then
            (if maxNestingDepth \<le> d then None
             else case skip_ws cs of
                    [] \<Rightarrow> None
                  | c' # r \<Rightarrow>
                      if c' = CHR '']'' then Some (JArray [], r)
                      else map_option (\<lambda>(es, t). (JArray es, t)) (scan_elems n (Suc d) (skip_ws cs)))
          else if c = CHR 0x22 then map_option (\<lambda>(k, t). (JString (unquote k), t)) (scan_string cs)
          else if c = CHR ''t'' then map_option (\<lambda>t. (JBool True, t)) (scan_lit ''true'' s)
          else if c = CHR ''f'' then map_option (\<lambda>t. (JBool False, t)) (scan_lit ''false'' s)
          else if c = CHR ''n'' then map_option (\<lambda>t. (JNull, t)) (scan_lit ''null'' s)
          else map_option (\<lambda>(l, t). (JNumber l, t)) (scan_number s))"
| "scan_elems 0 d s = None"
| "scan_elems (Suc n) d s =
     (case scan_value n d s of
        None \<Rightarrow> None
      | Some (v, r) \<Rightarrow>
          (case skip_ws r of
             [] \<Rightarrow> None
           | c # r' \<Rightarrow>
               if c = CHR '','' then
                 map_option (\<lambda>(es, t). (take (length s - length r) s # es, t))
                   (scan_elems n d (skip_ws r'))
               else if c = CHR '']'' then Some ([take (length s - length r) s], r')
               else None))"
| "scan_members 0 d s = None"
| "scan_members (Suc n) d s =
     (case s of
        [] \<Rightarrow> None
      | c # cs \<Rightarrow>
          if c \<noteq> CHR 0x22 then None
          else case scan_string cs of
                 None \<Rightarrow> None
               | Some (k, r) \<Rightarrow>
                   (case skip_ws r of
                      [] \<Rightarrow> None
                    | c1 # r1 \<Rightarrow>
                        if c1 \<noteq> CHR '':'' then None
                        else case scan_value n d (skip_ws r1) of
                               None \<Rightarrow> None
                             | Some (v, r2) \<Rightarrow>
                                 (case skip_ws r2 of
                                    [] \<Rightarrow> None
                                  | c2 # r3 \<Rightarrow>
                                      if c2 = CHR '','' then
                                        map_option
                                          (\<lambda>(ms, t). ((unquote k, take (length (skip_ws r1) - length r2) (skip_ws r1)) # ms, t))
                                          (scan_members n d (skip_ws r3))
                                      else if c2 = CHR ''}'' then
                                        Some ([(unquote k, take (length (skip_ws r1) - length r2) (skip_ws r1))], r3)
                                      else None)))"

text \<open>
  The whole byte string must be one value between optional white space; \<open>None\<close>
  is the library's syntax error.
\<close>

definition json_view :: "string \<Rightarrow> jvalue option" where
  "json_view data =
     (case scan_value (2 * length data + 1) 0 (skip_ws data) of
        None \<Rightarrow> None
      | Some (v, r) \<Rightarrow> if skip_ws r = [] then Some v else None)"


text \<open>
  Matching a member name against a field's JSON name: the exact name first, then
  the folded one. Folding maps ASCII letters to upper case and a rune to the least
  rune of its case orbit; the only runes folded to ASCII are U+017F (to S) and
  U+212A (to K), so they are the only multi-byte sequences that matter against the
  ASCII field names of this program.
\<close>

fun foldName :: "string \<Rightarrow> string" where
  "foldName [] = []"
| "foldName (c # cs) =
     (if (97::int) \<le> of_char c \<and> of_char c \<le> (122::int) then char_of (of_char c - (32::int)) # foldName cs
      else if c = CHR 0xC5 then
        (case cs of b # r \<Rightarrow> if b = CHR 0xBF then CHR ''S'' # foldName r else c # foldName cs
                  | [] \<Rightarrow> [c])
      else if c = CHR 0xE2 then
        (case cs of b1 # b2 # r \<Rightarrow>
                      if b1 = CHR 0x84 \<and> b2 = CHR 0xAA then CHR ''K'' # foldName r else c # foldName cs
                  | _ \<Rightarrow> c # foldName cs)
      else c # foldName cs)"

definition fieldMatches :: "string \<Rightarrow> string \<Rightarrow> bool" where
  "fieldMatches name key \<longleftrightarrow> key = name \<or> foldName key = foldName name"

definition parse_digits :: "string \<Rightarrow> int" where
  "parse_digits ds = foldl (\<lambda>n c. 10 * n + (of_char c - 48)) 0 ds"

text \<open>
  Storing one member value into a field of a given Go type. \<open>None\<close> is an
  \<^verbatim>\<open>UnmarshalTypeError\<close>. The library goes on decoding after such an error and
  returns it at the end; every caller in this program discards the value then,
  so the model stops at the first one. A \<^verbatim>\<open>null\<close> leaves a string, number, boolean
  or struct field as it is and resets an interface, map or slice to nil.
\<close>

definition store_string :: "string \<Rightarrow> string \<Rightarrow> string option" where
  "store_string raw cur =
     (case json_view raw of Some (JString s) \<Rightarrow> Some s | Some JNull \<Rightarrow> Some cur | _ \<Rightarrow> None)"

definition store_bool :: "string \<Rightarrow> bool \<Rightarrow> bool option" where
  "store_bool raw cur =
     (case json_view raw of Some (JBool b) \<Rightarrow> Some b | Some JNull \<Rightarrow> Some cur | _ \<Rightarrow> None)"

text \<open>
  An \<^verbatim>\<open>int\<close> field (64 bits): \<^verbatim>\<open>strconv.ParseInt\<close> accepts a literal with
  neither fraction nor exponent whose value fits.
\<close>

definition store_int :: "string \<Rightarrow> int \<Rightarrow> int option" where
  "store_int raw cur =
     (case json_view raw of
        Some (JNumber (sg, ip, fp, ep)) \<Rightarrow>
          (let v = (if sg = [] then parse_digits ip else - parse_digits ip) in
           if fp = [] \<and> ep = [] \<and> - (2 ^ 63) \<le> v \<and> v < 2 ^ 63 then Some v else None)
      | Some JNull \<Rightarrow> Some cur
      | _ \<Rightarrow> None)"

text \<open>
  A \<^verbatim>\<open>float64\<close> field holds the parts of the literal it was read from; rounding to
  binary64 is not modelled. \<^verbatim>\<open>strconv.ParseFloat\<close> fails on a literal whose value
  rounds to infinity, that is, whose magnitude reaches \<open>2^1024 - 2^970\<close>.
\<close>

type_synonym float64 = "string \<times> string \<times> string \<times> string"

definition float64_zero :: float64 where
  "float64_zero = ([], ''0'', [], [])"

definition float64_overflows :: "float64 \<Rightarrow> bool" where
  "float64_overflows l =
     (case l of (sg, ip, fp, ep) \<Rightarrow>
        (let m = parse_digits (ip @ fp);
             e = (case ep of [] \<Rightarrow> 0
                  | c # ds \<Rightarrow> if c = CHR ''-'' then - parse_digits ds else parse_digits ep)
                 - int (length fp)
         in if 0 \<le> e then 2 ^ 1024 - 2 ^ 970 \<le> m * 10 ^ nat e
            else (2 ^ 1024 - 2 ^ 970) * 10 ^ nat (- e) \<le> m))"

definition store_float64 :: "string \<Rightarrow> float64 \<Rightarrow> float64 option" where
  "store_float64 raw cur =
     (case json_view raw of
        Some (JNumber l) \<Rightarrow> if float64_overflows l then None else Some l
      | Some JNull \<Rightarrow> Some cur
      | _ \<Rightarrow> None)"

text \<open>
  An \<^verbatim>\<open>interface{}\<close> field takes any value; the model keeps its raw text as the
  opaque payload, and \<open>None\<close> for nil.
\<close>

definition store_interface :: "string \<Rightarrow> string option" where
  "store_interface raw = (case json_view raw of Some JNull \<Rightarrow> None | _ \<Rightarrow> Some raw)"

text \<open>
  A \<^verbatim>\<open>map[string]interface{}\<close> field: the members of an object are added to the
  map the field holds (a later duplicate replaces the value), values kept as raw
  text.
\<close>

definition store_map :: "string \<Rightarrow> (string \<times> string) list \<Rightarrow> (string \<times> string) list option" where
  "store_map raw cur =
     (case json_view raw of
        Some (JObject ms) \<Rightarrow> Some (foldl (\<lambda>m (k, v). AList.update k v m) cur ms)
      | Some JNull \<Rightarrow> Some []
      | _ \<Rightarrow> None)"

definition store_RawMessages :: "string \<Rightarrow> string list option" where
  "store_RawMessages raw =
     (case json_view raw of Some (JArray es) \<Rightarrow> Some es | Some JNull \<Rightarrow> Some [] | _ \<Rightarrow> None)"

fun decode_fields :: "(string \<Rightarrow> string \<Rightarrow> 'a \<Rightarrow> 'a option) \<Rightarrow> (string \<times> string) list \<Rightarrow> 'a \<Rightarrow> 'a option" where
  "decode_fields f [] a = Some a"
| "decode_fields f ((k, v) # ms) a =
     (case f k v a of None \<Rightarrow> None | Some a' \<Rightarrow> decode_fields f ms a')"

text \<open>
  \<^verbatim>\<open>json.Unmarshal\<close> of a byte string into a struct whose fields are decoded by
  \<open>f\<close>, starting from the struct's current value: an object is decoded member by
  member in order, \<^verbatim>\<open>null\<close> changes nothing, any other value is a type error.
\<close>

definition decode_struct :: "(string \<Rightarrow> string \<Rightarrow> 'a \<Rightarrow> 'a option) \<Rightarrow> string \<Rightarrow> 'a \<Rightarrow> 'a option" where
  "decode_struct f raw a =
     (case json_view raw of
        Some (JObject ms) \<Rightarrow> decode_fields f ms a
      | Some JNull \<Rightarrow> Some a
      | _ \<Rightarrow> None)"


section \<open>Errors\<close>

text \<open>
  The error values of the package, and those of \<^verbatim>\<open>fmt.Errorf\<close> and of the context.
  The \<^verbatim>\<open>Cause\<close> an error wraps (a value of the JSON or I/O library) is left out.
  \<^verbatim>\<open>CLIJSONDecodeError\<close> carries \<^verbatim>\<open>RawData\<close>, \<^verbatim>\<open>MessageParseError\<close> carries
  \<^verbatim>\<open>MessageType\<close> and \<^verbatim>\<open>RawMessage\<close>, \<^verbatim>\<open>ProcessError\<close> the exit code and the
  captured standard error.
\<close>

datatype error =
    CLIConnectionError string
  | CLINotFoundError
  | ProcessError int string
  | CLIJSONDecodeError string
  | MessageParseError string string
  | Errorf string
  | ContextCanceled
  | ContextDeadlineExceeded

section \<open>Messages and content blocks\<close>

datatype ContentBlock =
    TextBlock (tb_Type: string) (Text: string)
  | ToolUseBlock (tub_Type: string) (ID: string) (Name: string) (Input: "(string \<times> string) list")
  | ToolResultBlock (trb_Type: string) (ToolUseID: string) (IsError: bool) (trb_Content: "string option")

record ResultUsage =
  InputTokens :: int
  OutputTokens :: int
  BackgroundTokens :: int
  CacheCreationTokens :: int
  CacheReadTokens :: int

record ResultCost =
  InputTokenCost :: float64
  OutputTokenCost :: float64
  BackgroundTokenCost :: float64
  CacheCreationCost :: float64
  CacheReadCost :: float64
  TotalCost :: float64

record ResultMessageData =
  Usage :: ResultUsage
  Cost :: ResultCost
  SessionID :: string
  InterruptRequested :: bool

datatype Message =
    UserMessage (um_Role: string) (um_Content: string)
  | AssistantMessage (am_Role: string) (am_Content: "ContentBlock list")
  | SystemMessage (sm_Role: string) (Subtype: string) (sm_Data: "string option")
  | ResultMessage (rm_Role: string) (rm_Data: ResultMessageData)

record ControlResponse =
  cr_Type :: string
  RequestID :: string
  Response_Success :: bool
  Response_Error :: string

record StreamMessage =
  st_Type :: string
  st_Message :: string

definition zero_ResultUsage :: ResultUsage where
  "zero_ResultUsage = \<lparr>InputTokens = 0, OutputTokens = 0, BackgroundTokens = 0,
     CacheCreationTokens = 0, CacheReadTokens = 0\<rparr>"

definition zero_ResultCost :: ResultCost where
  "zero_ResultCost = \<lparr>InputTokenCost = float64_zero, OutputTokenCost = float64_zero,
     BackgroundTokenCost = float64_zero, CacheCreationCost = float64_zero,
     CacheReadCost = float64_zero, TotalCost = float64_zero\<rparr>"

definition zero_ResultMessageData :: ResultMessageData where
  "zero_ResultMessageData = \<lparr>Usage = zero_ResultUsage, Cost = zero_ResultCost, SessionID = [],
     InterruptRequested = False\<rparr>"

definition zero_ControlResponse :: ControlResponse where
  "zero_ControlResponse = \<lparr>cr_Type = [], RequestID = [], Response_Success = False, Response_Error = []\<rparr>"

definition zero_StreamMessage :: StreamMessage where
  "zero_StreamMessage = \<lparr>st_Type = [], st_Message = []\<rparr>"

subsection \<open>The fields of each struct, by JSON name\<close>

definition StreamMessage_field :: "string \<Rightarrow> string \<Rightarrow> StreamMessage \<Rightarrow> StreamMessage option" where
  "StreamMessage_field k v m =
     (if fieldMatches ''type'' k then map_option (\<lambda>s. m\<lparr>st_Type := s\<rparr>) (store_string v (st_Type m))
      else if fieldMatches ''message'' k then Some (m\<lparr>st_Message := v\<rparr>)
      else Some m)"

definition Response_field :: "string \<Rightarrow> string \<Rightarrow> ControlResponse \<Rightarrow> ControlResponse option" where
  "Response_field k v m =
     (if fieldMatches ''success'' k
      then map_option (\<lambda>b. m\<lparr>Response_Success := b\<rparr>) (store_bool v (Response_Success m))
      else if fieldMatches ''error'' k
      then map_option (\<lambda>s. m\<lparr>Response_Error := s\<rparr>) (store_string v (Response_Error m))
      else Some m)"

definition ControlResponse_field :: "string \<Rightarrow> string \<Rightarrow> ControlResponse \<Rightarrow> ControlResponse option" where
  "ControlResponse_field k v m =
     (if fieldMatches ''type'' k then map_option (\<lambda>s. m\<lparr>cr_Type := s\<rparr>) (store_string v (cr_Type m))
      else if fieldMatches ''request_id'' k
      then map_option (\<lambda>s. m\<lparr>RequestID := s\<rparr>) (store_string v (RequestID m))
      else if fieldMatches ''response'' k then decode_struct Response_field v m
      else Some m)"

text \<open>The anonymous structs with the one field \<^verbatim>\<open>type\<close> or \<^verbatim>\<open>subtype\<close>.\<close>

definition Type_field :: "string \<Rightarrow> string \<Rightarrow> string \<Rightarrow> string option" where
  "Type_field k v m = (if fieldMatches ''type'' k then store_string v m else Some m)"

definition Subtype_field :: "string \<Rightarrow> string \<Rightarrow> string \<Rightarrow> string option" where
  "Subtype_field k v m = (if fieldMatches ''subtype'' k then store_string v m else Some m)"

definition UserMessage_field :: "string \<Rightarrow> string \<Rightarrow> string \<times> string \<Rightarrow> (string \<times> string) option" where
  "UserMessage_field k v m =
     (if fieldMatches ''role'' k then map_option (\<lambda>s. (s, snd m)) (store_string v (fst m))
      else if fieldMatches ''content'' k then map_option (\<lambda>s. (fst m, s)) (store_string v (snd m))
      else Some m)"

text \<open>
  The auxiliary struct of \<^verbatim>\<open>AssistantMessage.UnmarshalJSON\<close>: its own
  \<^verbatim>\<open>Content []json.RawMessage\<close> shadows the embedded one, \<^verbatim>\<open>Role\<close> comes from the
  embedded alias.
\<close>

definition aux_field :: "string \<Rightarrow> string \<Rightarrow> string \<times> string list \<Rightarrow> (string \<times> string list) option" where
  "aux_field k v m =
     (if fieldMatches ''content'' k then map_option (\<lambda>c. (fst m, c)) (store_RawMessages v)
      else if fieldMatches ''role'' k then map_option (\<lambda>s. (s, snd m)) (store_string v (fst m))
      else Some m)"

definition TextBlock_field :: "string \<Rightarrow> string \<Rightarrow> ContentBlock \<Rightarrow> ContentBlock option" where
  "TextBlock_field k v b =
     (if fieldMatches ''type'' k then map_option (\<lambda>s. TextBlock s (Text b)) (store_string v (tb_Type b))
      else if fieldMatches ''text'' k then map_option (\<lambda>s. TextBlock (tb_Type b) s) (store_string v (Text b))
      else Some b)"

definition ToolUseBlock_field :: "string \<Rightarrow> string \<Rightarrow> ContentBlock \<Rightarrow> ContentBlock option" where
  "ToolUseBlock_field k v b =
     (if fieldMatches ''type'' k
      then map_option (\<lambda>s. ToolUseBlock s (ID b) (Name b) (Input b)) (store_string v (tub_Type b))
      else if fieldMatches ''id'' k
      then map_option (\<lambda>s. ToolUseBlock (tub_Type b) s (Name b) (Input b)) (store_string v (ID b))
      else if fieldMatches ''name'' k
      then map_option (\<lambda>s. ToolUseBlock (tub_Type b) (ID b) s (Input b)) (store_string v (Name b))
      else if fieldMatches ''input'' k
      then map_option (\<lambda>i. ToolUseBlock (tub_Type b) (ID b) (Name b) i) (store_map v (Input b))
      else Some b)"

definition ToolResultBlock_field :: "string \<Rightarrow> string \<Rightarrow> ContentBlock \<Rightarrow> ContentBlock option" where
  "ToolResultBlock_field k v b =
     (if fieldMatches ''type'' k
      then map_option (\<lambda>s. ToolResultBlock s (ToolUseID b) (IsError b) (trb_Content b))
             (store_string v (trb_Type b))
      else if fieldMatches ''tool_use_id'' k
      then map_option (\<lambda>s. ToolResultBlock (trb_Type b) s (IsError b) (trb_Content b))
             (store_string v (ToolUseID b))
      else if fieldMatches ''is_error'' k
      then map_option (\<lambda>e. ToolResultBlock (trb_Type b) (ToolUseID b) e (trb_Content b))
             (store_bool v (IsError b))
      else if fieldMatches ''content'' k
      then Some (ToolResultBlock (trb_Type b) (ToolUseID b) (IsError b) (store_interface v))
      else Some b)"

definition SystemMessage_field :: "string \<Rightarrow> string \<Rightarrow> Message \<Rightarrow> Message option" where
  "SystemMessage_field k v m =
     (if fieldMatches ''role'' k
      then map_option (\<lambda>s. SystemMessage s (Subtype m) (sm_Data m)) (store_string v (sm_Role m))
      else if fieldMatches ''subtype'' k
      then map_option (\<lambda>s. SystemMessage (sm_Role m) s (sm_Data m)) (store_string v (Subtype m))
      else if fieldMatches ''data'' k
      then Some (SystemMessage (sm_Role m) (Subtype m) (store_interface v))
      else Some m)"

definition ResultUsage_field :: "string \<Rightarrow> string \<Rightarrow> ResultUsage \<Rightarrow> ResultUsage option" where
  "ResultUsage_field k v u =
     (if fieldMatches ''inputTokens'' k
      then map_option (\<lambda>n. u\<lparr>InputTokens := n\<rparr>) (store_int v (InputTokens u))
      else if fieldMatches ''outputTokens'' k
      then map_option (\<lambda>n. u\<lparr>OutputTokens := n\<rparr>) (store_int v (OutputTokens u))
      else if fieldMatches ''backgroundTokens'' k
      then map_option (\<lambda>n. u\<lparr>BackgroundTokens := n\<rparr>) (store_int v (BackgroundTokens u))
      else if fieldMatches ''cacheCreationTokens'' k
      then map_option (\<lambda>n. u\<lparr>CacheCreationTokens := n\<rparr>) (store_int v (CacheCreationTokens u))
      else if fieldMatches ''cacheReadTokens'' k
      then map_option (\<lambda>n. u\<lparr>CacheReadTokens := n\<rparr>) (store_int v (CacheReadTokens u))
      else Some u)"

definition ResultCost_field :: "string \<Rightarrow> string \<Rightarrow> ResultCost \<Rightarrow> ResultCost option" where
  "ResultCost_field k v c =
     (if fieldMatches ''inputTokenCost'' k
      then map_option (\<lambda>x. c\<lparr>InputTokenCost := x\<rparr>) (store_float64 v (InputTokenCost c))
      else if fieldMatches ''outputTokenCost'' k
      then map_option (\<lambda>x. c\<lparr>OutputTokenCost := x\<rparr>) (store_float64 v (OutputTokenCost c))
      else if fieldMatches ''backgroundTokenCost'' k
      then map_option (\<lambda>x. c\<lparr>BackgroundTokenCost := x\<rparr>) (store_float64 v (BackgroundTokenCost c))
      else if fieldMatches ''cacheCreationCost'' k
      then map_option (\<lambda>x. c\<lparr>CacheCreationCost := x\<rparr>) (store_float64 v (CacheCreationCost c))
      else if fieldMatches ''cacheReadCost'' k
      then map_option (\<lambda>x. c\<lparr>CacheReadCost := x\<rparr>) (store_float64 v (CacheReadCost c))
      else if fieldMatches ''totalCost'' k
      then map_option (\<lambda>x. c\<lparr>TotalCost := x\<rparr>) (store_float64 v (TotalCost c))
      else Some c)"

definition ResultMessageData_field :: "string \<Rightarrow> string \<Rightarrow> ResultMessageData \<Rightarrow> ResultMessageData option" where
  "ResultMessageData_field k v d =
     (if fieldMatches ''usage'' k
      then map_option (\<lambda>u. d\<lparr>Usage := u\<rparr>) (decode_struct ResultUsage_field v (Usage d))
      else if fieldMatches ''cost'' k
      then map_option (\<lambda>c. d\<lparr>Cost := c\<rparr>) (decode_struct ResultCost_field v (Cost d))
      else if fieldMatches ''sessionId'' k
      then map_option (\<lambda>s. d\<lparr>SessionID := s\<rparr>) (store_string v (SessionID d))
      else if fieldMatches ''interruptRequested'' k
      then map_option (\<lambda>b. d\<lparr>InterruptRequested := b\<rparr>) (store_bool v (InterruptRequested d))
      else Some d)"

definition ResultMessage_field :: "string \<Rightarrow> string \<Rightarrow> Message \<Rightarrow> Message option" where
  "ResultMessage_field k v m =
     (if fieldMatches ''role'' k
      then map_option (\<lambda>s. ResultMessage s (rm_Data m)) (store_string v (rm_Role m))
      else if fieldMatches ''data'' k
      then map_option (\<lambda>d. ResultMessage (rm_Role m) d) (decode_struct ResultMessageData_field v (rm_Data m))
      else Some m)"


subsection \<open>AssistantMessage.UnmarshalJSON\<close>

text \<open>
  The body of the loop over \<^verbatim>\<open>aux.Content\<close> for one raw element: the block that is
  appended, if any. An element whose type check fails is skipped (\<^verbatim>\<open>continue\<close>);
  for a known type the block is set only when its decoding succeeds; for any other
  type the block stays nil.
\<close>

definition decodeBlock :: "string \<Rightarrow> ContentBlock option" where
  "decodeBlock raw =
     (case decode_struct Type_field raw [] of
        None \<Rightarrow> None
      | Some ty \<Rightarrow>
          if ty = ''text'' then decode_struct TextBlock_field raw (TextBlock [] [])
          else if ty = ''tool_use'' then decode_struct ToolUseBlock_field raw (ToolUseBlock [] [] [] [])
          else if ty = ''tool_result'' then
            decode_struct ToolResultBlock_field raw (ToolResultBlock [] [] False None)
          else None)"

fun content_loop :: "ContentBlock list \<Rightarrow> string list \<Rightarrow> ContentBlock list" where
  "content_loop acc [] = acc"
| "content_loop acc (raw # raws) =
     (case decodeBlock raw of
        None \<Rightarrow> content_loop acc raws
      | Some block \<Rightarrow> content_loop (acc @ [block]) raws)"

text \<open>
  The receiver \<open>m\<close> is an assistant message. The method decodes into the pointer
  \<^verbatim>\<open>aux\<close>: on the literal \<^verbatim>\<open>null\<close> \<^verbatim>\<open>json.Unmarshal\<close> sets that pointer to nil and
  returns no error, and the loop over \<^verbatim>\<open>aux.Content\<close> then dereferences nil. The
  only error the method returns is that of this first \<^verbatim>\<open>json.Unmarshal\<close>.
\<close>

datatype 'a unmarshalled = Decoded 'a | DecodeError | NilDereference

definition AssistantMessage_UnmarshalJSON :: "Message \<Rightarrow> string \<Rightarrow> Message unmarshalled" where
  "AssistantMessage_UnmarshalJSON m data =
     (case json_view data of
        Some JNull \<Rightarrow> NilDereference
      | _ \<Rightarrow>
          (case decode_struct aux_field data (am_Role m, []) of
             None \<Rightarrow> DecodeError
           | Some (role, content) \<Rightarrow> Decoded (AssistantMessage role (content_loop [] content))))"

section \<open>The message parser\<close>

definition parseStreamMessage :: "string \<Rightarrow> error + StreamMessage" where
  "parseStreamMessage data =
     (case decode_struct StreamMessage_field data zero_StreamMessage of
        None \<Rightarrow> Inl (CLIJSONDecodeError data)
      | Some msg \<Rightarrow> Inr msg)"

definition parseControlResponse :: "string \<Rightarrow> error + ControlResponse" where
  "parseControlResponse data =
     (case decode_struct ControlResponse_field data zero_ControlResponse of
        None \<Rightarrow> Inl (CLIJSONDecodeError data)
      | Some resp \<Rightarrow> Inr resp)"

text \<open>
  \<open>Some (Inr None)\<close> is the result \<^verbatim>\<open>nil, nil\<close>: no message and no error. \<open>None\<close>
  is the panic of the assistant message's decoder.
\<close>

definition parseMessage :: "string \<Rightarrow> string \<Rightarrow> (error + Message option) option" where
  "parseMessage msgType data =
     (if length data = 0 \<or> data = ''null'' \<or> data = ''{}'' then Some (Inr None)
      else if msgType = ''user'' then
        (case decode_struct UserMessage_field data ([], []) of
           None \<Rightarrow> Some (Inl (MessageParseError msgType data))
         | Some (role, content) \<Rightarrow> Some (Inr (Some (UserMessage role content))))
      else if msgType = ''assistant'' then
        (case AssistantMessage_UnmarshalJSON (AssistantMessage [] []) data of
           DecodeError \<Rightarrow> Some (Inl (MessageParseError msgType data))
         | Decoded msg \<Rightarrow> Some (Inr (Some msg))
         | NilDereference \<Rightarrow> None)
      else if msgType = ''system'' then
        (case decode_struct Subtype_field data [] of
           None \<Rightarrow> Some (Inl (MessageParseError msgType data))
         | Some subtype \<Rightarrow>
             if subtype = ''result'' then
               (case decode_struct ResultMessage_field data (ResultMessage [] zero_ResultMessageData) of
                  None \<Rightarrow> Some (Inl (MessageParseError msgType data))
                | Some msg \<Rightarrow> Some (Inr (Some msg)))
             else
               (case decode_struct SystemMessage_field data (SystemMessage [] [] None) of
                  None \<Rightarrow> Some (Inl (MessageParseError msgType data))
                | Some msg \<Rightarrow> Some (Inr (Some msg))))
      else Some (Inl (MessageParseError msgType data)))"

definition isControlResponse :: "string \<Rightarrow> bool" where
  "isControlResponse data =
     (case decode_struct Type_field data [] of
        None \<Rightarrow> False
      | Some ty \<Rightarrow> ty = ''control_response'')"

section \<open>The process transport\<close>

definition maxBufferSize :: nat where
  "maxBufferSize = 1024 * 1024"

definition maxStderrSize :: nat where
  "maxStderrSize = 10 * 1024 * 1024"

text \<open>
  What is written to the child's standard input: the encoding of an input message
  (type, message, parent tool use and session identifiers), the encoding of a
  control request with its request identifier, and the newline after each.
\<close>

datatype written =
    Marshal_InputMessage string Message string string
  | Marshal_ControlRequest string string string
  | Newline

text \<open>
  The state of a transport. The two queues are the contents of the buffered
  channels \<^verbatim>\<open>messages\<close> (capacity 100) and \<^verbatim>\<open>errors\<close> (capacity 10), oldest first;
  \<open>done_closed\<close> holds once the channel \<^verbatim>\<open>done\<close> is closed; \<open>closeOnce\<close> is the done flag
  of the \<^verbatim>\<open>sync.Once\<close>; \<open>controlResp\<close> maps a request identifier to the contents
  of its response channel (capacity 1).
\<close>

record transport =
  stdin_closed :: bool
  stdin_written :: "written list"
  process_killed :: bool
  process_waited :: bool
  stdout_closed :: bool
  stderr_closed :: bool
  stderrBuf :: string
  messages :: "Message list"
  messages_closed :: bool
  errors :: "error list"
  errors_closed :: bool
  done_closed :: bool
  closeOnce :: bool
  requestID :: int
  controlResp :: "string \<rightharpoonup> ControlResponse list"
  isStreaming :: bool

definition messages_cap :: nat where
  "messages_cap = 100"

definition errors_cap :: nat where
  "errors_cap = 10"

text \<open>The transport as \<^verbatim>\<open>newTransport\<close> and \<^verbatim>\<open>newTransportForQuery\<close> build it.\<close>

definition new_transport :: "bool \<Rightarrow> transport" where
  "new_transport streaming =
     \<lparr>stdin_closed = False, stdin_written = [], process_killed = False, process_waited = False,
      stdout_closed = False, stderr_closed = False, stderrBuf = [],
      messages = [], messages_closed = False, errors = [], errors_closed = False,
      done_closed = False, closeOnce = False, requestID = 0, controlResp = Map.empty,
      isStreaming = streaming\<rparr>"

text \<open>
  Where a background reader stands after a step: still in its loop, returned,
  blocked on a channel that is full (or whose receiver is absent), or stopped by
  a panic (a send on a closed channel, a nil pointer dereference).
\<close>

datatype 'a flow = Continue 'a | Return 'a | Blocked 'a | Panic 'a

text \<open>
  The sends of the background readers, \<^verbatim>\<open>select\<close>ed against \<^verbatim>\<open>done\<close>. In the loops
  they are reached only after the check of \<^verbatim>\<open>done\<close> at the head of the loop body,
  so \<^verbatim>\<open>done\<close> is not closed and the send is the only case that can be taken. A
  send on a closed channel panics.
\<close>

definition send_error :: "transport \<Rightarrow> error \<Rightarrow> transport flow" where
  "send_error t err =
     (if errors_closed t then Panic t
      else if length (errors t) < errors_cap then Continue (t\<lparr>errors := errors t @ [err]\<rparr>)
      else Blocked t)"

definition send_message :: "transport \<Rightarrow> Message \<Rightarrow> transport flow" where
  "send_message t msg =
     (if messages_closed t then Panic t
      else if length (messages t) < messages_cap then Continue (t\<lparr>messages := messages t @ [msg]\<rparr>)
      else Blocked t)"

text \<open>
  The unconditional send \<^verbatim>\<open>ch <- resp\<close> on the response channel registered under the
  response's request identifier; nothing happens when none is registered.
\<close>

definition route_response :: "transport \<Rightarrow> ControlResponse \<Rightarrow> transport flow" where
  "route_response t resp =
     (case controlResp t (RequestID resp) of
        Some ch \<Rightarrow>
          if length ch < 1
          then Continue (t\<lparr>controlResp := (controlResp t)(RequestID resp \<mapsto> ch @ [resp])\<rparr>)
          else Blocked t
      | None \<Rightarrow> Continue t)"

text \<open>One iteration of the loop of \<^verbatim>\<open>readMessages\<close>, on the line the scanner yields.\<close>

definition readLine :: "transport \<Rightarrow> string \<Rightarrow> transport flow" where
  "readLine t line =
     (if done_closed t then Return t
      else if length line = 0 then Continue t
      else if isControlResponse line then
        (case parseControlResponse line of
           Inl err \<Rightarrow> send_error t err
         | Inr resp \<Rightarrow> route_response t resp)
      else
        (case parseStreamMessage line of
           Inl err \<Rightarrow> send_error t err
         | Inr streamMsg \<Rightarrow>
             (case parseMessage (st_Type streamMsg) (st_Message streamMsg) of
                None \<Rightarrow> Panic t
              | Some (Inl err) \<Rightarrow> send_error t err
              | Some (Inr None) \<Rightarrow> Continue t
              | Some (Inr (Some msg)) \<Rightarrow> send_message t msg)))"

fun scan_loop :: "transport \<Rightarrow> string list \<Rightarrow> transport flow" where
  "scan_loop t [] = Continue t"
| "scan_loop t (line # lines) =
     (case readLine t line of
        Continue t' \<Rightarrow> scan_loop t' lines
      | r \<Rightarrow> r)"

text \<open>
  \<^verbatim>\<open>readMessages\<close> on the lines the scanner yields before it stops, and the
  scanner's error, if any (a line above \<^const>\<open>maxBufferSize\<close>, a read failure).
  In the last \<^verbatim>\<open>select\<close> \<^verbatim>\<open>done\<close> may be closed, and both cases can be ready (the
  send is ready when the queue has room or is closed); \<open>pick_send\<close> is the choice
  of the runtime then.
\<close>

definition readMessages :: "transport \<Rightarrow> string list \<Rightarrow> bool \<Rightarrow> bool \<Rightarrow> transport flow" where
  "readMessages t lines scanner_err pick_send =
     (case scan_loop t lines of
        Continue t' \<Rightarrow>
          if \<not> scanner_err then Return t'
          else if done_closed t' \<and>
                  ((\<not> errors_closed t' \<and> errors_cap \<le> length (errors t')) \<or> \<not> pick_send)
          then Return t'
          else (case send_error t' (CLIConnectionError ''Error reading stdout'') of
                  Continue t'' \<Rightarrow> Return t''
                | r \<Rightarrow> r)
      | r \<Rightarrow> r)"

text \<open>
  The message a conversation line yields: the one \<^verbatim>\<open>readMessages\<close> sends to the
  message queue when both parsing steps succeed and produce a message.
\<close>

definition frame_message :: "string \<Rightarrow> Message option" where
  "frame_message line =
     (case parseStreamMessage line of
        Inl err \<Rightarrow> None
      | Inr streamMsg \<Rightarrow>
          (case parseMessage (st_Type streamMsg) (st_Message streamMsg) of
             Some (Inr (Some msg)) \<Rightarrow> Some msg
           | _ \<Rightarrow> None))"

subsection \<open>The diagnostic reader\<close>

datatype read_error = EOF | ReadFailure

text \<open>
  One iteration of the loop of \<^verbatim>\<open>readStderr\<close>: \<^verbatim>\<open>reader.Read\<close> has returned the
  bytes \<open>chunk\<close> (\<^verbatim>\<open>buf[:n]\<close>) and the error \<open>err\<close>.
\<close>

definition readStderr_step :: "transport \<Rightarrow> string \<times> read_error option \<Rightarrow> transport flow" where
  "readStderr_step t rd =
     (if done_closed t then Return t
      else
        (let t1 = (if 0 < length (fst rd)
                   then (if length (stderrBuf t) + length (fst rd) \<le> maxStderrSize
                         then t\<lparr>stderrBuf := stderrBuf t @ fst rd\<rparr>
                         else t)
                   else t)
         in case snd rd of
              None \<Rightarrow> Continue t1
            | Some EOF \<Rightarrow> Return t1
            | Some ReadFailure \<Rightarrow>
                (case send_error t1 (CLIConnectionError ''Error reading stderr'') of
                   Continue t2 \<Rightarrow> Return t2
                 | r \<Rightarrow> r)))"

fun readStderr :: "transport \<Rightarrow> (string \<times> read_error option) list \<Rightarrow> transport flow" where
  "readStderr t [] = Continue t"
| "readStderr t (rd # rds) =
     (case readStderr_step t rd of
        Continue t' \<Rightarrow> readStderr t' rds
      | r \<Rightarrow> r)"

text \<open>The transport a reader has reached.\<close>

fun state_of :: "'a flow \<Rightarrow> 'a" where
  "state_of (Continue t) = t"
| "state_of (Return t) = t"
| "state_of (Blocked t) = t"
| "state_of (Panic t) = t"


subsection \<open>Writing to the child\<close>

text \<open>
  \<^verbatim>\<open>t.stdin.Write\<close>: it fails on a closed pipe end, and otherwise when the operating
  system refuses the write (\<open>ok\<close> is false: the child has exited or closed its end).
\<close>

definition stdin_Write :: "transport \<Rightarrow> written \<Rightarrow> bool \<Rightarrow> transport option" where
  "stdin_Write t data ok =
     (if stdin_closed t \<or> \<not> ok then None
      else Some (t\<lparr>stdin_written := stdin_written t @ [data]\<rparr>))"

definition sendMessage :: "transport \<Rightarrow> Message \<Rightarrow> string \<Rightarrow> string \<Rightarrow> bool \<Rightarrow> bool \<Rightarrow> error option \<times> transport" where
  "sendMessage t message parentToolUseID sessionID ok1 ok2 =
     (case stdin_Write t (Marshal_InputMessage ''user'' message parentToolUseID sessionID) ok1 of
        None \<Rightarrow> (Some (CLIConnectionError ''Failed to send message''), t)
      | Some t1 \<Rightarrow>
          (case stdin_Write t1 Newline ok2 of
             None \<Rightarrow> (Some (CLIConnectionError ''Failed to send newline''), t1)
           | Some t2 \<Rightarrow> (None, t2)))"


subsection \<open>Control requests\<close>

function digits :: "int \<Rightarrow> string" where
  "digits n = (if n < 10 then [char_of (48 + n)] else digits (n div 10) @ [char_of (48 + n mod 10)])"
  by pat_completeness auto
termination
  by (relation "measure nat") auto

declare digits.simps [simp del]

text \<open>The verb \<^verbatim>\<open>%d\<close> of \<^verbatim>\<open>fmt.Sprintf\<close>.\<close>

definition decimal :: "int \<Rightarrow> string" where
  "decimal n = (if n < 0 then CHR ''-'' # digits (- n) else digits n)"

text \<open>\<^verbatim>\<open>atomic.Int64.Add\<close>: two's complement addition on 64 bits.\<close>

definition add_int64 :: "int \<Rightarrow> int \<Rightarrow> int" where
  "add_int64 a b = (a + b + 2 ^ 63) mod 2 ^ 64 - 2 ^ 63"

text \<open>
  The start of \<^verbatim>\<open>sendInterrupt\<close>: the request identifier is built from the
  incremented counter and the clock (\<open>now\<close>, in nanoseconds), and an empty response
  channel is registered under it.
\<close>

definition interrupt_requestID :: "transport \<Rightarrow> int \<Rightarrow> string" where
  "interrupt_requestID t now =
     ''req_'' @ decimal (add_int64 (requestID t) 1) @ ''_'' @ decimal now"

definition interrupt_register :: "transport \<Rightarrow> int \<Rightarrow> transport" where
  "interrupt_register t now =
     t\<lparr>requestID := add_int64 (requestID t) 1,
       controlResp := (controlResp t)(interrupt_requestID t now \<mapsto> [])\<rparr>"

text \<open>The deferred function: the registration is deleted.\<close>

definition interrupt_deferred :: "string \<Rightarrow> transport \<Rightarrow> transport" where
  "interrupt_deferred rid t = t\<lparr>controlResp := (controlResp t)(rid := None)\<rparr>"

text \<open>
  The \<^verbatim>\<open>select\<close> of \<^verbatim>\<open>sendInterrupt\<close>. Times are nanoseconds from the moment the
  \<^verbatim>\<open>select\<close> starts: \<open>ctx_at\<close> is when the context is done, \<open>resp_at\<close> when the reader
  puts a response in the channel (\<open>None\<close>: never), and the timer of
  \<^verbatim>\<open>time.After(5 * time.Second)\<close> fires at \<^term>\<open>interruptTimeout\<close>. The statement
  returns at the first moment a case is ready, with any one of the cases ready then.
\<close>

definition interruptTimeout :: int where
  "interruptTimeout = 5 * 1000000000"

datatype select_case = CtxDone | RespRecv | TimeAfter

definition select_time :: "int option \<Rightarrow> int option \<Rightarrow> int" where
  "select_time ctx_at resp_at =
     min interruptTimeout
       (min (case ctx_at of None \<Rightarrow> interruptTimeout | Some a \<Rightarrow> a)
            (case resp_at of None \<Rightarrow> interruptTimeout | Some a \<Rightarrow> a))"

definition select_ready :: "int option \<Rightarrow> int option \<Rightarrow> select_case list" where
  "select_ready ctx_at resp_at =
     (case ctx_at of Some a \<Rightarrow> if a \<le> select_time ctx_at resp_at then [CtxDone] else [] | None \<Rightarrow> [])
     @ (case resp_at of Some a \<Rightarrow> if a \<le> select_time ctx_at resp_at then [RespRecv] else [] | None \<Rightarrow> [])
     @ (if interruptTimeout \<le> select_time ctx_at resp_at then [TimeAfter] else [])"

text \<open>
  \<^verbatim>\<open>sendInterrupt\<close>: every result the call can return, with the transport it leaves.
  \<open>ctx\<close> is the moment the context is done and its error, \<open>resp\<close> the moment a
  response arrives on the registered channel and the response.
\<close>

definition sendInterrupt ::
  "transport \<Rightarrow> int \<Rightarrow> bool \<Rightarrow> bool \<Rightarrow> (int \<times> error) option \<Rightarrow> (int \<times> ControlResponse) option
     \<Rightarrow> (error option \<times> transport) list" where
  "sendInterrupt t now ok1 ok2 ctx resp =
     (let rid = interrupt_requestID t now;
          t1 = interrupt_register t now
      in case stdin_Write t1 (Marshal_ControlRequest ''control_request'' rid ''interrupt'') ok1 of
           None \<Rightarrow> [(Some (CLIConnectionError ''Failed to send interrupt''), interrupt_deferred rid t1)]
         | Some t2 \<Rightarrow>
             (case stdin_Write t2 Newline ok2 of
                None \<Rightarrow> [(Some (CLIConnectionError ''Failed to send newline''), interrupt_deferred rid t2)]
              | Some t3 \<Rightarrow>
                  map (\<lambda>c. case c of
                         CtxDone \<Rightarrow> (map_option snd ctx, interrupt_deferred rid t3)
                       | RespRecv \<Rightarrow>
                           (case resp of
                              Some (a, r) \<Rightarrow>
                                if \<not> Response_Success r
                                then (Some (Errorf (''interrupt failed: '' @ Response_Error r)),
                                      interrupt_deferred rid t3)
                                else (None, interrupt_deferred rid t3)
                            | None \<Rightarrow> (None, interrupt_deferred rid t3))
                       | TimeAfter \<Rightarrow>
                           (Some (Errorf ''interrupt request timeout''), interrupt_deferred rid t3))
                    (select_ready (map_option fst ctx) (map_option fst resp))))"

subsection \<open>Closing\<close>

text \<open>
  The function run under \<^verbatim>\<open>closeOnce\<close>, in three parts: \<^verbatim>\<open>done\<close> is closed, the
  pipes are closed, the process is killed and waited for; then \<^verbatim>\<open>messages\<close> is
  closed; then \<^verbatim>\<open>errors\<close>. Closing a closed channel panics (\<open>None\<close>).
\<close>

definition teardown_done :: "transport \<Rightarrow> transport option" where
  "teardown_done t =
     (if done_closed t then None
      else Some (t\<lparr>done_closed := True, stdin_closed := True, process_killed := True,
                   stdout_closed := True, stderr_closed := True, process_waited := True\<rparr>))"

definition teardown_messages :: "transport \<Rightarrow> transport option" where
  "teardown_messages t = (if messages_closed t then None else Some (t\<lparr>messages_closed := True\<rparr>))"

definition teardown_errors :: "transport \<Rightarrow> transport option" where
  "teardown_errors t = (if errors_closed t then None else Some (t\<lparr>errors_closed := True\<rparr>))"

definition teardown :: "transport \<Rightarrow> transport option" where
  "teardown t =
     (case teardown_done t of
        None \<Rightarrow> None
      | Some t1 \<Rightarrow>
          (case teardown_messages t1 of
             None \<Rightarrow> None
           | Some t2 \<Rightarrow> teardown_errors t2))"

text \<open>
  \<^verbatim>\<open>close\<close> called by one caller at a time: \<^verbatim>\<open>closeOnce.Do\<close> runs the function on
  the first call only, and \<^verbatim>\<open>finalErr\<close> is never assigned. \<open>None\<close> is a panic.
\<close>

definition close :: "transport \<Rightarrow> (error option \<times> transport) option" where
  "close t =
     (if closeOnce t then Some (None, t)
      else case teardown t of
             None \<Rightarrow> None
           | Some t' \<Rightarrow> Some (None, t'\<lparr>closeOnce := True\<rparr>))"

text \<open>
  A receive on a queue: a value while the buffer holds one, the end of the stream
  once the channel is closed and empty, and otherwise the receiver waits.
\<close>

datatype 'a received = Value 'a | EndOfStream | Waits

definition receive :: "'a list \<Rightarrow> bool \<Rightarrow> 'a received" where
  "receive buf is_closed = (case buf of x # _ \<Rightarrow> Value x | [] \<Rightarrow> if is_closed then EndOfStream else Waits)"

subsection \<open>Concurrent callers of close\<close>

text \<open>
  Any number of goroutines call \<^verbatim>\<open>close\<close> on one transport. Each runs
  \<^verbatim>\<open>sync.Once.Do\<close>: it loads the done flag and returns if it is set; otherwise it
  takes the mutex of the \<^verbatim>\<open>Once\<close>, loads the flag again, runs the function if it is
  still unset and then stores the flag, releases the mutex and returns
  \<^verbatim>\<open>finalErr\<close>, which is nil. The steps of different goroutines interleave in any
  order. A panic ends the program.
\<close>

datatype pc = Call | Lock | Check | RunDone | RunMessages | RunErrors | Store | Unlock
  | Returned | Panicked

record system =
  tr :: transport
  mutex :: bool
  pcs :: "nat \<Rightarrow> pc"
  runs :: nat

inductive step :: "system \<Rightarrow> system \<Rightarrow> bool" where
  load_set: "pcs s i = Call \<Longrightarrow> closeOnce (tr s) \<Longrightarrow> \<forall>j. pcs s j \<noteq> Panicked
     \<Longrightarrow> step s (s\<lparr>pcs := (pcs s)(i := Returned)\<rparr>)"
| load_unset: "pcs s i = Call \<Longrightarrow> \<not> closeOnce (tr s) \<Longrightarrow> \<forall>j. pcs s j \<noteq> Panicked
     \<Longrightarrow> step s (s\<lparr>pcs := (pcs s)(i := Lock)\<rparr>)"
| lock: "pcs s i = Lock \<Longrightarrow> \<not> mutex s \<Longrightarrow> \<forall>j. pcs s j \<noteq> Panicked
     \<Longrightarrow> step s (s\<lparr>mutex := True, pcs := (pcs s)(i := Check)\<rparr>)"
| check_set: "pcs s i = Check \<Longrightarrow> closeOnce (tr s) \<Longrightarrow> \<forall>j. pcs s j \<noteq> Panicked
     \<Longrightarrow> step s (s\<lparr>pcs := (pcs s)(i := Unlock)\<rparr>)"
| check_unset: "pcs s i = Check \<Longrightarrow> \<not> closeOnce (tr s) \<Longrightarrow> \<forall>j. pcs s j \<noteq> Panicked
     \<Longrightarrow> step s (s\<lparr>pcs := (pcs s)(i := RunDone), runs := Suc (runs s)\<rparr>)"
| run_done: "pcs s i = RunDone \<Longrightarrow> teardown_done (tr s) = Some t' \<Longrightarrow> \<forall>j. pcs s j \<noteq> Panicked
     \<Longrightarrow> step s (s\<lparr>tr := t', pcs := (pcs s)(i := RunMessages)\<rparr>)"
| run_done_panic: "pcs s i = RunDone \<Longrightarrow> teardown_done (tr s) = None \<Longrightarrow> \<forall>j. pcs s j \<noteq> Panicked
     \<Longrightarrow> step s (s\<lparr>pcs := (pcs s)(i := Panicked)\<rparr>)"
| run_messages: "pcs s i = RunMessages \<Longrightarrow> teardown_messages (tr s) = Some t' \<Longrightarrow> \<forall>j. pcs s j \<noteq> Panicked
     \<Longrightarrow> step s (s\<lparr>tr := t', pcs := (pcs s)(i := RunErrors)\<rparr>)"
| run_messages_panic: "pcs s i = RunMessages \<Longrightarrow> teardown_messages (tr s) = None \<Longrightarrow> \<forall>j. pcs s j \<noteq> Panicked
     \<Longrightarrow> step s (s\<lparr>pcs := (pcs s)(i := Panicked)\<rparr>)"
| run_errors: "pcs s i = RunErrors \<Longrightarrow> teardown_errors (tr s) = Some t' \<Longrightarrow> \<forall>j. pcs s j \<noteq> Panicked
     \<Longrightarrow> step s (s\<lparr>tr := t', pcs := (pcs s)(i := Store)\<rparr>)"
| run_errors_panic: "pcs s i = RunErrors \<Longrightarrow> teardown_errors (tr s) = None \<Longrightarrow> \<forall>j. pcs s j \<noteq> Panicked
     \<Longrightarrow> step s (s\<lparr>pcs := (pcs s)(i := Panicked)\<rparr>)"
| store: "pcs s i = Store \<Longrightarrow> \<forall>j. pcs s j \<noteq> Panicked
     \<Longrightarrow> step s (s\<lparr>tr := (tr s)\<lparr>closeOnce := True\<rparr>, pcs := (pcs s)(i := Unlock)\<rparr>)"
| unlock: "pcs s i = Unlock \<Longrightarrow> \<forall>j. pcs s j \<noteq> Panicked
     \<Longrightarrow> step s (s\<lparr>mutex := False, pcs := (pcs s)(i := Returned)\<rparr>)"

inductive reachable :: "system \<Rightarrow> system \<Rightarrow> bool" where
  reach_refl: "reachable s s"
| reach_step: "reachable s s' \<Longrightarrow> step s' s'' \<Longrightarrow> reachable s s''"

text \<open>Every goroutine is about to call \<^verbatim>\<open>close\<close> on the transport \<open>t\<close>.\<close>

definition initial :: "transport \<Rightarrow> system" where
  "initial t = \<lparr>tr = t, mutex = False, pcs = (\<lambda>i. Call), runs = 0\<rparr>"

text \<open>
  A transport on which \<^verbatim>\<open>close\<close> has not been called: only the function run under
  \<^verbatim>\<open>closeOnce\<close> closes the three channels.
\<close>

definition unclosed :: "transport \<Rightarrow> bool" where
  "unclosed t \<longleftrightarrow> \<not> closeOnce t \<and> \<not> done_closed t \<and> \<not> messages_closed t \<and> \<not> errors_closed t"


text \<open>
  The invariant of the interleavings. A goroutine is running the function of the
  \<^verbatim>\<open>Once\<close> from the second load of the flag until it stores it.
\<close>

definition running :: "pc \<Rightarrow> bool" where
  "running p \<longleftrightarrow> p = RunDone \<or> p = RunMessages \<or> p = RunErrors \<or> p = Store"

text \<open>What holds of goroutine \<open>i\<close> when goroutine \<open>h\<close>, if any, holds the mutex.\<close>

definition caller_inv :: "nat option \<Rightarrow> system \<Rightarrow> nat \<Rightarrow> bool" where
  "caller_inv h s i =
     (case pcs s i of
        Call \<Rightarrow> h \<noteq> Some i
      | Lock \<Rightarrow> h \<noteq> Some i
      | Check \<Rightarrow> h = Some i
      | RunDone \<Rightarrow> h = Some i \<and> \<not> closeOnce (tr s) \<and> runs s = 1 \<and> \<not> done_closed (tr s)
          \<and> \<not> messages_closed (tr s) \<and> \<not> errors_closed (tr s)
      | RunMessages \<Rightarrow> h = Some i \<and> \<not> closeOnce (tr s) \<and> runs s = 1
          \<and> \<not> messages_closed (tr s) \<and> \<not> errors_closed (tr s)
      | RunErrors \<Rightarrow> h = Some i \<and> \<not> closeOnce (tr s) \<and> runs s = 1
          \<and> messages_closed (tr s) \<and> \<not> errors_closed (tr s)
      | Store \<Rightarrow> h = Some i \<and> \<not> closeOnce (tr s) \<and> runs s = 1
          \<and> messages_closed (tr s) \<and> errors_closed (tr s)
      | Unlock \<Rightarrow> h = Some i \<and> closeOnce (tr s)
      | Returned \<Rightarrow> h \<noteq> Some i \<and> closeOnce (tr s)
      | Panicked \<Rightarrow> False)"

text \<open>What holds of the \<^verbatim>\<open>Once\<close> and the transport.\<close>

definition once_inv :: "nat option \<Rightarrow> system \<Rightarrow> bool" where
  "once_inv h s \<longleftrightarrow>
     (mutex s \<longleftrightarrow> h \<noteq> None)
   \<and> (closeOnce (tr s) \<longrightarrow> runs s = 1 \<and> messages_closed (tr s) \<and> errors_closed (tr s))
   \<and> (\<not> closeOnce (tr s) \<and> (case h of None \<Rightarrow> True | Some i \<Rightarrow> \<not> running (pcs s i))
        \<longrightarrow> runs s = 0 \<and> unclosed (tr s))"

definition close_inv :: "nat option \<Rightarrow> system \<Rightarrow> bool" where
  "close_inv h s \<longleftrightarrow> once_inv h s \<and> (\<forall>i. caller_inv h s i)"

section \<open>The session client\<close>

text \<open>
  The client holds its transport (\<open>None\<close> is the nil pointer), the session
  identifier of its options, the history of messages, and the two flags.
\<close>

record Client =
  c_transport :: "transport option"
  options_SessionID :: string
  c_messages :: "Message list"
  closed :: bool
  connected :: bool

definition NewClient :: "string \<Rightarrow> Client" where
  "NewClient sessionID =
     \<lparr>c_transport = None, options_SessionID = sessionID, c_messages = [], closed = False,
      connected = False\<rparr>"

text \<open>
  \<open>spawned\<close> is the result of \<^verbatim>\<open>newTransport\<close>, which starts the child process;
  \<open>ok1\<close> and \<open>ok2\<close> say whether the operating system accepts the two writes.
\<close>

definition Connect :: "Client \<Rightarrow> error + transport \<Rightarrow> string \<Rightarrow> bool \<Rightarrow> bool \<Rightarrow> error option \<times> Client" where
  "Connect c spawned prompt ok1 ok2 =
     (if connected c then (Some (Errorf ''client is already connected''), c)
      else if closed c then (Some (Errorf ''client is closed''), c)
      else case spawned of
             Inl err \<Rightarrow> (Some err, c)
           | Inr t \<Rightarrow>
               if prompt \<noteq> [] then
                 (case sendMessage t (UserMessage ''user'' prompt) [] (options_SessionID c) ok1 ok2 of
                    (err, t') \<Rightarrow> (err, c\<lparr>c_transport := Some t', connected := True\<rparr>))
               else (None, c\<lparr>c_transport := Some t, connected := True\<rparr>))"

text \<open>In the operations below \<open>None\<close> is the panic of a nil pointer dereference.\<close>

definition SendMessage :: "Client \<Rightarrow> string \<Rightarrow> bool \<Rightarrow> bool \<Rightarrow> (error option \<times> Client) option" where
  "SendMessage c prompt ok1 ok2 =
     (if closed c then Some (Some (Errorf ''client is closed''), c)
      else if \<not> connected c then Some (Some (Errorf ''client is not connected, call Connect() first''), c)
      else case c_transport c of
             None \<Rightarrow> None
           | Some t \<Rightarrow>
               (case sendMessage t (UserMessage ''user'' prompt) [] (options_SessionID c) ok1 ok2 of
                  (err, t') \<Rightarrow> Some (err, c\<lparr>c_transport := Some t'\<rparr>)))"

definition SendInterrupt ::
  "Client \<Rightarrow> int \<Rightarrow> bool \<Rightarrow> bool \<Rightarrow> (int \<times> error) option \<Rightarrow> (int \<times> ControlResponse) option
     \<Rightarrow> (error option \<times> Client) list option" where
  "SendInterrupt c now ok1 ok2 ctx resp =
     (if closed c then Some [(Some (Errorf ''client is closed''), c)]
      else if \<not> connected c then Some [(Some (Errorf ''client is not connected, call Connect() first''), c)]
      else case c_transport c of
             None \<Rightarrow> None
           | Some t \<Rightarrow>
               Some (map (\<lambda>(err, t'). (err, c\<lparr>c_transport := Some t'\<rparr>))
                      (sendInterrupt t now ok1 ok2 ctx resp)))"

text \<open>
  The channel an accessor returns: a new channel that is already closed, one of the
  transport's queues, or the channel \<^verbatim>\<open>out\<close> that a forwarding goroutine feeds from
  the transport's message queue.
\<close>

datatype channel = NewClosedChannel | TransportMessages | TransportErrors | OutChannel

definition Client_Messages :: "Client \<Rightarrow> channel" where
  "Client_Messages c =
     (if \<not> connected c \<or> c_transport c = None then NewClosedChannel else TransportMessages)"

definition Client_Errors :: "Client \<Rightarrow> channel" where
  "Client_Errors c =
     (if \<not> connected c \<or> c_transport c = None then NewClosedChannel else TransportErrors)"

definition GetMessages :: "Client \<Rightarrow> Message list" where
  "GetMessages c = c_messages c"

definition StreamMessages :: "Client \<Rightarrow> channel" where
  "StreamMessages c =
     (if \<not> connected c \<or> c_transport c = None then NewClosedChannel else OutChannel)"

definition ReceiveResponse :: "Client \<Rightarrow> channel" where
  "ReceiveResponse c =
     (if \<not> connected c \<or> c_transport c = None then NewClosedChannel else OutChannel)"

definition ReceiveMessages :: "Client \<Rightarrow> channel" where
  "ReceiveMessages c = StreamMessages c"

text \<open>
  What a \<^verbatim>\<open>select\<close> over the context and the two queues receives: the context's
  error, a value of the error queue or of the message queue; \<open>None\<close> is the zero
  value received from a closed channel.
\<close>

datatype recv_event = EvCtxDone error | EvError "error option" | EvMessage "Message option"

text \<open>The loop of \<^verbatim>\<open>WaitForResult\<close>; \<open>None\<close>: it has not returned yet.\<close>

fun wait_loop :: "Client \<Rightarrow> recv_event list \<Rightarrow> ((Message option \<times> error option) \<times> Client) option" where
  "wait_loop c [] = None"
| "wait_loop c (EvCtxDone e # evs) = Some ((None, Some e), c)"
| "wait_loop c (EvError e # evs) = Some ((None, e), c)"
| "wait_loop c (EvMessage None # evs) = Some ((None, Some (Errorf ''message channel closed'')), c)"
| "wait_loop c (EvMessage (Some msg) # evs) =
     (case msg of
        ResultMessage role data \<Rightarrow> Some ((Some msg, None), c\<lparr>c_messages := c_messages c @ [msg]\<rparr>)
      | _ \<Rightarrow> wait_loop (c\<lparr>c_messages := c_messages c @ [msg]\<rparr>) evs)"

definition WaitForResult :: "Client \<Rightarrow> recv_event list \<Rightarrow> ((Message option \<times> error option) \<times> Client) option" where
  "WaitForResult c evs =
     (if \<not> connected c \<or> c_transport c = None
      then Some ((None, Some (Errorf ''client is not connected, call Connect() first'')), c)
      else wait_loop c evs)"

text \<open>\<open>None\<close> is a panic of the transport's \<^verbatim>\<open>close\<close>.\<close>

definition Close :: "Client \<Rightarrow> (error option \<times> Client) option" where
  "Close c =
     (if closed c then Some (None, c)
      else case c_transport c of
             Some t \<Rightarrow>
               (case close t of
                  None \<Rightarrow> None
                | Some (err, t') \<Rightarrow> Some (err, c\<lparr>closed := True, connected := False, c_transport := Some t'\<rparr>))
           | None \<Rightarrow> Some (None, c\<lparr>closed := True, connected := False\<rparr>))"

section \<open>The one-shot query\<close>











section \<open>The scanner's bound on calls\<close>

text \<open>
  A call of the scanner that returns has consumed input, and it returns the same
  with any bound on the calls that is at least the number of characters consumed.
  The bound \<open>2 * length data + 1\<close> of \<^const>\<open>json_view\<close> is therefore never the
  reason for a \<open>None\<close>: a text that \<^const>\<open>json_view\<close> refuses is refused with every bound.
\<close>

lemma length_skip_ws: "length (skip_ws s) \<le> length s"
  by (simp add: skip_ws_def length_dropWhile_le)

lemma scan_string_shorter: "scan_string cs = Some (k, r) \<Longrightarrow> length r < length cs"
proof (induction "length cs" arbitrary: cs k rule: less_induct)
  case less
  show ?case
  proof (cases cs)
    case Nil
    with less.prems show ?thesis by simp
  next
    case (Cons c cs')
    have IH: "length r < length xs" if "scan_string xs = Some (k', r)" "length xs < length cs" for xs k'
      using less.hyps[OF that(2) that(1)] .
    from less.prems Cons show ?thesis
      by (auto split: if_splits list.splits dest!: IH)
  qed
qed

lemma scan_lit_shorter: "scan_lit lit s = Some r \<Longrightarrow> lit \<noteq> [] \<Longrightarrow> length r < length s"
  by (cases s) (auto simp: scan_lit_def split: if_splits)

lemma scan_digits_shorter: "scan_digits s = Some (ds, r) \<Longrightarrow> length r < length s"
proof -
  assume a: "scan_digits s = Some (ds, r)"
  then have "takeWhile isDigit s \<noteq> []" "r = dropWhile isDigit s"
    by (auto simp: scan_digits_def split: if_splits)
  moreover have "length (takeWhile isDigit s) + length (dropWhile isDigit s) = length s"
    by (metis length_append takeWhile_dropWhile_id)
  ultimately show ?thesis by (cases "takeWhile isDigit s") auto
qed

lemma scan_digits_le: "scan_digits s = Some (ds, r) \<Longrightarrow> length r \<le> length s"
  using scan_digits_shorter by fastforce

lemma scan_number_shorter: "scan_number s = Some (l, r) \<Longrightarrow> length r < length s"
  unfolding scan_number_def Let_def
  by (auto split: list.splits if_splits option.splits prod.splits
      dest!: scan_digits_shorter)




lemma v_bound:
  assumes IHe: "\<forall>d s es t. scan_elems n d s = Some (es, t) \<longrightarrow>
      length t < length s \<and> (\<forall>m. length s - length t \<le> m \<longrightarrow> scan_elems m d s = Some (es, t))"
    and IHm: "\<forall>d s ms t. scan_members n d s = Some (ms, t) \<longrightarrow>
      length t < length s \<and> (\<forall>m. length s - length t \<le> m \<longrightarrow> scan_members m d s = Some (ms, t))"
    and a: "scan_value (Suc n) d s = Some (v, r)"
  shows "length r < length s \<and> (\<forall>m. length s - length r \<le> m \<longrightarrow> scan_value m d s = Some (v, r))"
proof -
  have fin: ?thesis
    if len: "length r < length s"
      and fuel: "\<And>k. length s - length r \<le> Suc k \<Longrightarrow> scan_value (Suc k) d s = Some (v, r)"
  proof (intro conjI allI impI)
    show "length r < length s" by (rule len)
  next
    fix m assume m: "length s - length r \<le> m"
    with len obtain k where k: "m = Suc k" by (cases m) auto
    from m show "scan_value m d s = Some (v, r)" unfolding k by (rule fuel)
  qed
  show ?thesis
  proof (cases s)
    case Nil
    with a show ?thesis by simp
  next
    case (Cons c cs)
    note s = Cons
    show ?thesis
    proof (cases "c = CHR ''{''")
      case ob: True
      show ?thesis
      proof (cases "maxNestingDepth \<le> d")
        case True
        with a s ob show ?thesis by simp
      next
        case dp: False
        show ?thesis
        proof (cases "skip_ws cs")
          case Nil
          with a s ob dp show ?thesis by simp
        next
          case (Cons c' r0)
          note w = Cons
          from length_skip_ws[of cs] w have r0: "length r0 < length cs" by simp
          show ?thesis
          proof (cases "c' = CHR ''}''")
            case True
            with a s ob dp w have "v = JObject []" "r = r0" by simp_all
            with s ob dp w True r0 show ?thesis by (intro fin) simp_all
          next
            case ne: False
            from a s ob dp w ne
            obtain ms where m: "scan_members n (Suc d) (skip_ws cs) = Some (ms, r)" and v: "v = JObject ms"
              by auto
            from IHm m have l: "length r < length (skip_ws cs)"
              and f: "\<And>k. length (skip_ws cs) - length r \<le> k \<Longrightarrow> scan_members k (Suc d) (skip_ws cs) = Some (ms, r)"
              by blast+
            show ?thesis
            proof (rule fin)
              from l length_skip_ws[of cs] s show "length r < length s" by simp
            next
              fix k assume "length s - length r \<le> Suc k"
              with l length_skip_ws[of cs] s have "length (skip_ws cs) - length r \<le> k" by simp
              from f[OF this] s ob dp w ne v show "scan_value (Suc k) d s = Some (v, r)" by simp
            qed
          qed
        qed
      qed
    next
      case nb: False
      show ?thesis
      proof (cases "c = CHR ''[''")
        case ab: True
        show ?thesis
        proof (cases "maxNestingDepth \<le> d")
          case True
          with a s nb ab show ?thesis by simp
        next
          case dp: False
          show ?thesis
          proof (cases "skip_ws cs")
            case Nil
            with a s nb ab dp show ?thesis by simp
          next
            case (Cons c' r0)
            note w = Cons
            from length_skip_ws[of cs] w have r0: "length r0 < length cs" by simp
            show ?thesis
            proof (cases "c' = CHR '']''")
              case True
              with a s nb ab dp w have "v = JArray []" "r = r0" by simp_all
              with s nb ab dp w True r0 show ?thesis by (intro fin) simp_all
            next
              case ne: False
              from a s nb ab dp w ne
              obtain es where m: "scan_elems n (Suc d) (skip_ws cs) = Some (es, r)" and v: "v = JArray es"
                by auto
              from IHe m have l: "length r < length (skip_ws cs)"
                and f: "\<And>k. length (skip_ws cs) - length r \<le> k \<Longrightarrow> scan_elems k (Suc d) (skip_ws cs) = Some (es, r)"
                by blast+
              show ?thesis
              proof (rule fin)
                from l length_skip_ws[of cs] s show "length r < length s" by simp
              next
                fix k assume "length s - length r \<le> Suc k"
                with l length_skip_ws[of cs] s have "length (skip_ws cs) - length r \<le> k" by simp
                from f[OF this] s nb ab dp w ne v show "scan_value (Suc k) d s = Some (v, r)" by simp
              qed
            qed
          qed
        qed
      next
        case na: False
        from s nb na have eq: "scan_value (Suc k) d s = scan_value (Suc n) d s" for k by simp
        from a s nb na have "length r < length s"
          by (auto split: if_splits dest: scan_string_shorter scan_lit_shorter scan_number_shorter)
        then show ?thesis using eq a by (intro fin) simp_all
      qed
    qed
  qed
qed


lemma e_bound:
  assumes IHv: "\<forall>d s v r. scan_value n d s = Some (v, r) \<longrightarrow>
      length r < length s \<and> (\<forall>m. length s - length r \<le> m \<longrightarrow> scan_value m d s = Some (v, r))"
    and IHe: "\<forall>d s es t. scan_elems n d s = Some (es, t) \<longrightarrow>
      length t < length s \<and> (\<forall>m. length s - length t \<le> m \<longrightarrow> scan_elems m d s = Some (es, t))"
    and a: "scan_elems (Suc n) d s = Some (es, t)"
  shows "length t < length s \<and> (\<forall>m. length s - length t \<le> m \<longrightarrow> scan_elems m d s = Some (es, t))"
proof -
  have fin: ?thesis
    if len: "length t < length s"
      and fuel: "\<And>k. length s - length t \<le> Suc k \<Longrightarrow> scan_elems (Suc k) d s = Some (es, t)"
  proof (intro conjI allI impI)
    show "length t < length s" by (rule len)
  next
    fix m assume m: "length s - length t \<le> m"
    with len obtain k where k: "m = Suc k" by (cases m) auto
    from m show "scan_elems m d s = Some (es, t)" unfolding k by (rule fuel)
  qed
  from a obtain v r where sv: "scan_value n d s = Some (v, r)"
    by (cases "scan_value n d s") auto
  from IHv sv have lr: "length r < length s"
    and fv: "\<And>k. length s - length r \<le> k \<Longrightarrow> scan_value k d s = Some (v, r)"
    by blast+
  let ?raw = "take (length s - length r) s"
  show ?thesis
  proof (cases "skip_ws r")
    case Nil
    with a sv show ?thesis by simp
  next
    case (Cons c r')
    note w = Cons
    from length_skip_ws[of r] w have r': "length r' < length r" by simp
    show ?thesis
    proof (cases "c = CHR '',''")
      case True
      with a sv w obtain es' where
        m: "scan_elems n d (skip_ws r') = Some (es', t)" and es: "es = ?raw # es'"
        by auto
      from IHe m have lt: "length t < length (skip_ws r')"
        and fe: "\<And>k. length (skip_ws r') - length t \<le> k \<Longrightarrow> scan_elems k d (skip_ws r') = Some (es', t)"
        by blast+
      show ?thesis
      proof (rule fin)
        from lt length_skip_ws[of r'] r' lr show "length t < length s" by simp
      next
        fix k assume k: "length s - length t \<le> Suc k"
        from k lt length_skip_ws[of r'] r' lr have "length s - length r \<le> k" by simp
        note v = fv[OF this]
        from k lt length_skip_ws[of r'] r' lr have "length (skip_ws r') - length t \<le> k" by simp
        note e = fe[OF this]
        show "scan_elems (Suc k) d s = Some (es, t)"
          using v e w True es by (subst scan_elems.simps(2)) simp
      qed
    next
      case False
      with a sv w have c: "c = CHR '']''" and es: "es = [?raw]" and t: "t = r'"
        by (auto split: if_splits)
      show ?thesis
      proof (rule fin)
        from t r' lr show "length t < length s" by simp
      next
        fix k assume k: "length s - length t \<le> Suc k"
        from k t r' lr have "length s - length r \<le> k" by simp
        note v = fv[OF this]
        show "scan_elems (Suc k) d s = Some (es, t)"
          using v w c es t by (subst scan_elems.simps(2)) simp
      qed
    qed
  qed
qed

lemma m_bound:
  assumes IHv: "\<forall>d s v r. scan_value n d s = Some (v, r) \<longrightarrow>
      length r < length s \<and> (\<forall>m. length s - length r \<le> m \<longrightarrow> scan_value m d s = Some (v, r))"
    and IHm: "\<forall>d s ms t. scan_members n d s = Some (ms, t) \<longrightarrow>
      length t < length s \<and> (\<forall>m. length s - length t \<le> m \<longrightarrow> scan_members m d s = Some (ms, t))"
    and a: "scan_members (Suc n) d s = Some (ms, t)"
  shows "length t < length s \<and> (\<forall>m. length s - length t \<le> m \<longrightarrow> scan_members m d s = Some (ms, t))"
proof -
  have fin: ?thesis
    if len: "length t < length s"
      and fuel: "\<And>k. length s - length t \<le> Suc k \<Longrightarrow> scan_members (Suc k) d s = Some (ms, t)"
  proof (intro conjI allI impI)
    show "length t < length s" by (rule len)
  next
    fix m assume m: "length s - length t \<le> m"
    with len obtain k where k: "m = Suc k" by (cases m) auto
    from m show "scan_members m d s = Some (ms, t)" unfolding k by (rule fuel)
  qed
  from a obtain c cs where s: "s = c # cs" and q: "c = CHR 0x22"
    by (cases s) (auto split: if_splits)
  from a s q obtain key r where ss: "scan_string cs = Some (key, r)"
    by (cases "scan_string cs") auto
  from scan_string_shorter[OF ss] s have lr: "length r < length s" by simp
  from a s q ss obtain c1 r1 where w: "skip_ws r = c1 # r1" and col: "c1 = CHR '':''"
    by (cases "skip_ws r") (auto split: if_splits)
  from length_skip_ws[of r] w have r1: "length r1 < length r" by simp
  from a s q ss w col obtain v r2 where sv: "scan_value n d (skip_ws r1) = Some (v, r2)"
    by (cases "scan_value n d (skip_ws r1)") auto
  from IHv sv have l2: "length r2 < length (skip_ws r1)"
    and fv: "\<And>k. length (skip_ws r1) - length r2 \<le> k \<Longrightarrow> scan_value k d (skip_ws r1) = Some (v, r2)"
    by blast+
  from l2 length_skip_ws[of r1] r1 lr have r2: "length r2 < length r1" "length (skip_ws r1) < length s"
    by simp_all
  let ?raw = "take (length (skip_ws r1) - length r2) (skip_ws r1)"
  show ?thesis
  proof (cases "skip_ws r2")
    case Nil
    with a s q ss w col sv show ?thesis by simp
  next
    case (Cons c2 r3)
    note w2 = Cons
    from length_skip_ws[of r2] w2 have r3: "length r3 < length r2" by simp
    show ?thesis
    proof (cases "c2 = CHR '',''")
      case True
      with a s q ss w col sv w2 obtain ms' where
        m: "scan_members n d (skip_ws r3) = Some (ms', t)" and ms: "ms = (unquote key, ?raw) # ms'"
        by auto
      from IHm m have lt: "length t < length (skip_ws r3)"
        and fm: "\<And>k. length (skip_ws r3) - length t \<le> k \<Longrightarrow> scan_members k d (skip_ws r3) = Some (ms', t)"
        by blast+
      from lt length_skip_ws[of r3] r3 have t2: "length t < length r2" by simp
      show ?thesis
      proof (rule fin)
        from t2 l2 r2 show "length t < length s" by simp
      next
        fix k assume k: "length s - length t \<le> Suc k"
        from k t2 l2 r2 have "length (skip_ws r1) - length r2 \<le> k" by simp
        note v = fv[OF this]
        from k lt length_skip_ws[of r3] r3 l2 r2 have "length (skip_ws r3) - length t \<le> k" by simp
        note e = fm[OF this]
        show "scan_members (Suc k) d s = Some (ms, t)"
          using s q ss w col v e w2 True ms by (subst scan_members.simps(2)) simp
      qed
    next
      case False
      with a s q ss w col sv w2 have c: "c2 = CHR ''}''" and ms: "ms = [(unquote key, ?raw)]" and t: "t = r3"
        by (auto split: if_splits)
      show ?thesis
      proof (rule fin)
        from t r3 l2 r2 show "length t < length s" by simp
      next
        fix k assume k: "length s - length t \<le> Suc k"
        from k t r3 l2 r2 have "length (skip_ws r1) - length r2 \<le> k" by simp
        note v = fv[OF this]
        show "scan_members (Suc k) d s = Some (ms, t)"
          using s q ss w col v w2 c ms t by (subst scan_members.simps(2)) simp
      qed
    qed
  qed
qed

lemma scan_bound:
  "(\<forall>d s v r. scan_value n d s = Some (v, r) \<longrightarrow>
      length r < length s \<and> (\<forall>m. length s - length r \<le> m \<longrightarrow> scan_value m d s = Some (v, r)))
   \<and> (\<forall>d s es t. scan_elems n d s = Some (es, t) \<longrightarrow>
      length t < length s \<and> (\<forall>m. length s - length t \<le> m \<longrightarrow> scan_elems m d s = Some (es, t)))
   \<and> (\<forall>d s ms t. scan_members n d s = Some (ms, t) \<longrightarrow>
      length t < length s \<and> (\<forall>m. length s - length t \<le> m \<longrightarrow> scan_members m d s = Some (ms, t)))"
proof (induction n)
  case 0
  show ?case by simp
next
  case (Suc n)
  note IHv = Suc.IH[THEN conjunct1]
  note IHe = Suc.IH[THEN conjunct2, THEN conjunct1]
  note IHm = Suc.IH[THEN conjunct2, THEN conjunct2]
  have v: "\<forall>d s v r. scan_value (Suc n) d s = Some (v, r) \<longrightarrow>
      length r < length s \<and> (\<forall>m. length s - length r \<le> m \<longrightarrow> scan_value m d s = Some (v, r))"
    by (intro allI impI, erule v_bound[OF IHe IHm])
  have e: "\<forall>d s es t. scan_elems (Suc n) d s = Some (es, t) \<longrightarrow>
      length t < length s \<and> (\<forall>m. length s - length t \<le> m \<longrightarrow> scan_elems m d s = Some (es, t))"
    by (intro allI impI, erule e_bound[OF IHv IHe])
  have m: "\<forall>d s ms t. scan_members (Suc n) d s = Some (ms, t) \<longrightarrow>
      length t < length s \<and> (\<forall>m. length s - length t \<le> m \<longrightarrow> scan_members m d s = Some (ms, t))"
    by (intro allI impI, erule m_bound[OF IHv IHm])
  from v e m show ?case by (intro conjI)
qed

lemma scan_value_fuel:
  assumes "scan_value n d s = Some (v, r)" and "length s \<le> m"
  shows "scan_value m d s = Some (v, r)"
proof -
  from scan_bound[of n] assms(1)
  have "\<forall>m. length s - length r \<le> m \<longrightarrow> scan_value m d s = Some (v, r)" by blast
  moreover from assms(2) have "length s - length r \<le> m" by simp
  ultimately show ?thesis by blast
qed

lemma json_view_fuel:
  assumes "scan_value n 0 (skip_ws data) = Some (v, r)"
  shows "json_view data = (if skip_ws r = [] then Some v else None)"
proof -
  from length_skip_ws[of data] have "length (skip_ws data) \<le> 2 * length data + 1" by simp
  from scan_value_fuel[OF assms this] show ?thesis by (simp add: json_view_def)
qed


section \<open>The diagnostic buffer\<close>


lemma send_error_stderrBuf: "stderrBuf (state_of (send_error t e)) = stderrBuf t"
  by (simp add: send_error_def)

lemma send_error_cases:
  "send_error t e = Continue t' \<Longrightarrow> stderrBuf t' = stderrBuf t \<and> done_closed t' = done_closed t"
  by (auto simp: send_error_def split: if_splits)

lemma readStderr_step_buf:
  "stderrBuf (state_of (readStderr_step t rd)) =
     (if \<not> done_closed t \<and> length (stderrBuf t) + length (fst rd) \<le> maxStderrSize
      then stderrBuf t @ fst rd else stderrBuf t)"
  by (auto simp: readStderr_step_def Let_def send_error_def split: option.splits read_error.splits flow.splits)

lemma readStderr_step_done:
  "done_closed (state_of (readStderr_step t rd)) = done_closed t"
  by (auto simp: readStderr_step_def Let_def send_error_def split: option.splits read_error.splits flow.splits)

lemma readStderr_step_Continue:
  "readStderr_step t rd = Continue t' \<Longrightarrow> t' = state_of (readStderr_step t rd)"
  by simp

lemma readStderr_step_no_error:
  "\<not> done_closed t \<Longrightarrow> snd rd = None \<Longrightarrow>
   readStderr_step t rd = Continue (state_of (readStderr_step t rd))"
  by (auto simp: readStderr_step_def Let_def)

lemma readStderr_Cons_state:
  "state_of (readStderr t (rd # rds)) =
     (case readStderr_step t rd of Continue t' \<Rightarrow> state_of (readStderr t' rds) | r \<Rightarrow> state_of r)"
  by (simp split: flow.splits)

text \<open>
  Claim C9. Every read of the diagnostic reader keeps the buffer within
  \<^const>\<open>maxStderrSize\<close> (10 MiB): whatever reads follow, the buffer never grows past
  the cap, and a chunk whose addition would push the total past the cap is
  discarded whole, the buffer staying as it was.
\<close>

theorem readStderr_cap_invariant:
  "length (stderrBuf t) \<le> maxStderrSize \<Longrightarrow>
   length (stderrBuf (state_of (readStderr t rds))) \<le> maxStderrSize \<and>
   (maxStderrSize < length (stderrBuf t) + length (fst rd) \<longrightarrow>
      stderrBuf (state_of (readStderr_step t rd)) = stderrBuf t)"
proof (induction rds arbitrary: t)
  case Nil
  then show ?case by (simp add: readStderr_step_buf)
next
  case (Cons r rds)
  have step: "length (stderrBuf (state_of (readStderr_step t r))) \<le> maxStderrSize"
    using Cons.prems by (simp add: readStderr_step_buf)
  show ?case
  proof (cases "readStderr_step t r")
    case (Continue t')
    with step have "length (stderrBuf t') \<le> maxStderrSize" by simp
    from Cons.IH[OF this] Continue show ?thesis by (simp add: readStderr_step_buf)
  qed (use step in \<open>simp_all add: readStderr_step_buf\<close>)
qed










text \<open>
  The invariant at a full buffer: the chunk \<^verbatim>\<open>y\<close> is dropped and the buffer is unchanged.
\<close>

theorem readStderr_cap_invariant_witness:
  "length (stderrBuf ((new_transport True)\<lparr>stderrBuf := replicate maxStderrSize (CHR ''x'')\<rparr>)) \<le> maxStderrSize
   \<and> stderrBuf (state_of (readStderr_step
        ((new_transport True)\<lparr>stderrBuf := replicate maxStderrSize (CHR ''x'')\<rparr>) (''y'', None)))
      = replicate maxStderrSize (CHR ''x'')"
proof -
  have h: "length (stderrBuf ((new_transport True)\<lparr>stderrBuf := replicate maxStderrSize (CHR ''x'')\<rparr>)) \<le> maxStderrSize"
    by simp
  from readStderr_cap_invariant[OF h, of "[]" "(''y'', None)"] h show ?thesis by simp
qed



section \<open>The message reader and the codec\<close>


lemma send_error_flow: "state_of (send_error t e) = t \<or> (\<exists>t'. send_error t e = Continue t')"
  by (simp add: send_error_def)

lemma send_message_flow: "state_of (send_message t m) = t \<or> (\<exists>t'. send_message t m = Continue t')"
  by (simp add: send_message_def)

lemma route_response_flow: "state_of (route_response t r) = t \<or> (\<exists>t'. route_response t r = Continue t')"
  by (simp add: route_response_def split: option.split)

lemma readLine_flow: "state_of (readLine t line) = t \<or> (\<exists>t'. readLine t line = Continue t')"
  unfolding readLine_def
  by (simp add: send_error_flow send_message_flow route_response_flow split: sum.split option.split)

lemma send_error_Continue:
  "send_error t e = Continue t' \<Longrightarrow> t' = t\<lparr>errors := errors t @ [e]\<rparr>"
  by (simp add: send_error_def split: if_splits)

lemma send_message_Continue:
  "send_message t m = Continue t' \<Longrightarrow> t' = t\<lparr>messages := messages t @ [m]\<rparr>"
  by (simp add: send_message_def split: if_splits)

lemma route_response_Continue:
  "route_response t r = Continue t' \<Longrightarrow> messages t' = messages t \<and> errors t' = errors t"
  by (auto simp add: route_response_def split: option.splits if_splits)

lemma json_view_Nil: "json_view [] = None"
  by (simp add: json_view_def skip_ws_def)

lemma parseStreamMessage_Nil: "parseStreamMessage [] = Inl (CLIJSONDecodeError [])"
  by (simp add: parseStreamMessage_def decode_struct_def json_view_Nil)

lemma readLine_Continue_messages:
  "readLine t line = Continue t' \<longrightarrow>
   messages t' = messages t @
     (if isControlResponse line then []
      else (case frame_message line of Some m \<Rightarrow> [m] | None \<Rightarrow> []))"
  unfolding readLine_def frame_message_def
  by (auto simp: parseStreamMessage_Nil split: sum.split option.split
      dest!: send_error_Continue send_message_Continue route_response_Continue)


lemma invalid_not_control: "json_view line = None \<Longrightarrow> \<not> isControlResponse line"
  by (simp add: isControlResponse_def decode_struct_def)



lemma readLine_control_messages:
  "isControlResponse line \<Longrightarrow> messages (state_of (readLine t line)) = messages t"
  by (auto simp: readLine_def send_error_def route_response_def split: sum.splits option.splits)

lemma scan_loop_messages:
  "\<exists>n. messages (state_of (scan_loop t lines)) =
     messages t @ List.map_filter frame_message (filter (\<lambda>l. \<not> isControlResponse l) (take n lines))"
proof (induction lines arbitrary: t)
  case Nil
  show ?case by (simp add: List.map_filter_simps)
next
  case (Cons line lines)
  show ?case
  proof (cases "\<exists>t'. readLine t line = Continue t'")
    case True
    then obtain t' where c: "readLine t line = Continue t'" by blast
    from Cons.IH[of t'] obtain n where
      n: "messages (state_of (scan_loop t' lines)) =
          messages t' @ List.map_filter frame_message (filter (\<lambda>l. \<not> isControlResponse l) (take n lines))"
      by blast
    have "messages (state_of (scan_loop t (line # lines))) =
          messages t @ List.map_filter frame_message
            (filter (\<lambda>l. \<not> isControlResponse l) (take (Suc n) (line # lines)))"
      using c n readLine_Continue_messages[of t line t']
      by (auto simp: List.map_filter_simps split: option.splits)
    then show ?thesis by blast
  next
    case False
    then have "state_of (readLine t line) = t" using readLine_flow[of t line] by simp
    moreover have "scan_loop t (line # lines) = readLine t line"
      using False by (cases "readLine t line") auto
    ultimately have "messages (state_of (scan_loop t (line # lines))) =
          messages t @ List.map_filter frame_message
            (filter (\<lambda>l. \<not> isControlResponse l) (take 0 (line # lines)))"
      by (simp add: List.map_filter_simps)
    then show ?thesis by blast
  qed
qed

lemma scan_loop_Continue_messages:
  "scan_loop t lines = Continue t' \<Longrightarrow>
   messages t' = messages t @ List.map_filter frame_message (filter (\<lambda>l. \<not> isControlResponse l) lines)"
proof (induction lines arbitrary: t)
  case Nil
  then show ?case by (simp add: List.map_filter_simps)
next
  case (Cons line lines)
  from Cons.prems obtain t1 where s1: "readLine t line = Continue t1" and s2: "scan_loop t1 lines = Continue t'"
    by (cases "readLine t line") auto
  from Cons.IH[OF s2] readLine_Continue_messages[of t line t1] s1
  show ?case by (auto simp: List.map_filter_simps split: option.splits)
qed

lemma route_response_other:
  "rid \<noteq> RequestID resp \<Longrightarrow> controlResp (state_of (route_response t resp)) rid = controlResp t rid"
  by (auto simp: route_response_def split: option.splits)

lemma readLine_control_other:
  "isControlResponse line \<Longrightarrow> parseControlResponse line = Inr resp \<Longrightarrow> rid \<noteq> RequestID resp \<Longrightarrow>
   controlResp (state_of (readLine t line)) rid = controlResp t rid"
  by (auto simp: readLine_def route_response_other)

lemma readLine_control_parse_error:
  "isControlResponse line \<Longrightarrow> parseControlResponse line = Inl err \<Longrightarrow>
   controlResp (state_of (readLine t line)) = controlResp t"
  by (auto simp: readLine_def send_error_def)

lemma readLine_control_slot:
  "isControlResponse line \<Longrightarrow> parseControlResponse line = Inr resp \<Longrightarrow> \<not> done_closed t \<Longrightarrow>
   line \<noteq> [] \<Longrightarrow> controlResp t (RequestID resp) = Some [] \<Longrightarrow>
   controlResp (state_of (readLine t line)) (RequestID resp) = Some [resp]"
  by (auto simp: readLine_def route_response_def)

lemma readLine_control_unregistered:
  "isControlResponse line \<Longrightarrow> parseControlResponse line = Inr resp \<Longrightarrow>
   controlResp t (RequestID resp) = None \<Longrightarrow>
   controlResp (state_of (readLine t line)) = controlResp t"
  by (auto simp: readLine_def route_response_def)

text \<open>
  Claim C2. Whatever lines the reader processes, in whatever order control
  responses and conversation frames follow each other, the message queue grows
  only by the messages of the processed lines that are not control responses, in
  their order (of all the lines, when the reader gets through them): no
  control-response frame is ever sent to it. A control response touches no
  response channel but the one registered under its own request identifier: every
  other entry of the table is unchanged, nothing changes when no channel is
  registered under that identifier, and an empty registered channel receives the
  response.
\<close>

theorem control_responses_never_queued:
  "(\<exists>n. messages (state_of (scan_loop t lines)) =
       messages t @ List.map_filter frame_message (filter (\<lambda>l. \<not> isControlResponse l) (take n lines)))
   \<and> (\<forall>t'. scan_loop t lines = Continue t' \<longrightarrow>
         messages t' =
           messages t @ List.map_filter frame_message (filter (\<lambda>l. \<not> isControlResponse l) lines))
   \<and> (isControlResponse line \<longrightarrow>
        messages (state_of (readLine t line)) = messages t
        \<and> (\<forall>resp. parseControlResponse line = Inr resp \<longrightarrow>
              (\<forall>rid. rid \<noteq> RequestID resp \<longrightarrow> controlResp (state_of (readLine t line)) rid = controlResp t rid)
              \<and> (controlResp t (RequestID resp) = None \<longrightarrow> controlResp (state_of (readLine t line)) = controlResp t)
              \<and> (\<not> done_closed t \<and> controlResp t (RequestID resp) = Some [] \<longrightarrow>
                    controlResp (state_of (readLine t line)) (RequestID resp) = Some [resp])))"
proof -
  have nonempty: "isControlResponse line \<Longrightarrow> line \<noteq> []"
    using invalid_not_control[of "[]"] json_view_Nil by auto
  show ?thesis
    using scan_loop_messages[of t lines] scan_loop_Continue_messages[of t lines]
      readLine_control_messages[of line t]
      readLine_control_other[of line _ _ t] readLine_control_unregistered[of line _ t]
      readLine_control_slot[of line _ t] nonempty
    by blast
qed










theorem control_responses_never_queued_witness:
  \<open>isControlResponse ''{"type":"control_response","request_id":"r1","response":{"success":true}}''
   \<and> messages (state_of (readLine ((new_transport True)\<lparr>controlResp := [''r1'' \<mapsto> []]\<rparr>)
        ''{"type":"control_response","request_id":"r1","response":{"success":true}}'')) = []
   \<and> controlResp (state_of (readLine ((new_transport True)\<lparr>controlResp := [''r1'' \<mapsto> []]\<rparr>)
        ''{"type":"control_response","request_id":"r1","response":{"success":true}}'')) ''r1''
      = Some [\<lparr>cr_Type = ''control_response'', RequestID = ''r1'', Response_Success = True, Response_Error = []\<rparr>]\<close>
proof -
  let ?t = "(new_transport True)\<lparr>controlResp := [''r1'' \<mapsto> []]\<rparr>"
  let ?resp = "\<lparr>cr_Type = ''control_response'', RequestID = ''r1'', Response_Success = True, Response_Error = []\<rparr>"
  have h1: \<open>isControlResponse ''{"type":"control_response","request_id":"r1","response":{"success":true}}''\<close>
    by code_simp
  have h2: \<open>parseControlResponse ''{"type":"control_response","request_id":"r1","response":{"success":true}}'' = Inr ?resp\<close>
    by code_simp
  have h3: "\<not> done_closed ?t \<and> controlResp ?t (RequestID ?resp) = Some []" "messages ?t = []"
    by (simp_all add: new_transport_def)
  from control_responses_never_queued[of ?t "[]" \<open>''{"type":"control_response","request_id":"r1","response":{"success":true}}''\<close>] h1 h2 h3
  show ?thesis by auto
qed



section \<open>The text of a query\<close>







section \<open>Interrupt requests\<close>


lemma stdin_Write_controlResp:
  "stdin_Write t d ok = Some t' \<Longrightarrow> controlResp t' = controlResp t"
  by (auto simp: stdin_Write_def split: if_splits)

lemma sendInterrupt_results:
  "(err, t') \<in> set (sendInterrupt t now oka okb ctx resp) \<Longrightarrow>
   controlResp t' = (controlResp t)(interrupt_requestID t now := None)"
  by (auto simp: sendInterrupt_def Let_def interrupt_deferred_def interrupt_register_def
      dest!: stdin_Write_controlResp split: option.splits select_case.splits if_splits)

lemma select_ready_nonempty: "select_ready ctx_at resp_at \<noteq> []"
  by (auto simp: select_ready_def select_time_def min_def split: option.splits)

lemma sendInterrupt_nonempty: "sendInterrupt t now oka okb ctx resp \<noteq> []"
  by (simp add: sendInterrupt_def Let_def select_ready_nonempty split: option.splits)

lemma select_ready_timeout:
  "\<forall>a. ctx_at = Some a \<longrightarrow> interruptTimeout < a \<Longrightarrow>
   select_ready ctx_at None = [TimeAfter] \<and> select_time ctx_at None = interruptTimeout"
  by (auto simp: select_ready_def select_time_def min_def split: option.splits)

text \<open>
  Claim C4. Every result \<^verbatim>\<open>sendInterrupt\<close> can return leaves the table of pending
  requests as it was before the call, with no entry under the request identifier
  of the call; the call always has a result. When both writes succeed, no response
  arrives and the context is not done within the window, the only result is the
  timeout error, returned when the timer of 5 seconds (in nanoseconds) fires.
\<close>

theorem sendInterrupt_unregisters_and_times_out:
  "sendInterrupt t now oka okb ctx resp \<noteq> []
   \<and> (\<forall>(err, t') \<in> set (sendInterrupt t now oka okb ctx resp).
         controlResp t' (interrupt_requestID t now) = None
         \<and> (\<forall>rid. rid \<noteq> interrupt_requestID t now \<longrightarrow> controlResp t' rid = controlResp t rid))
   \<and> (\<not> stdin_closed t \<and> oka \<and> okb \<and> resp = None \<and> (\<forall>a e. ctx = Some (a, e) \<longrightarrow> interruptTimeout < a) \<longrightarrow>
         map fst (sendInterrupt t now oka okb ctx resp) = [Some (Errorf ''interrupt request timeout'')]
         \<and> select_time (map_option fst ctx) None = interruptTimeout
         \<and> interruptTimeout = 5 * 1000000000)"
proof (intro conjI impI)
  show "sendInterrupt t now oka okb ctx resp \<noteq> []" by (rule sendInterrupt_nonempty)
next
  show "\<forall>(err, t') \<in> set (sendInterrupt t now oka okb ctx resp).
         controlResp t' (interrupt_requestID t now) = None
         \<and> (\<forall>rid. rid \<noteq> interrupt_requestID t now \<longrightarrow> controlResp t' rid = controlResp t rid)"
    using sendInterrupt_results[of _ _ t now oka okb ctx resp] by auto
next
  assume a: "\<not> stdin_closed t \<and> oka \<and> okb \<and> resp = None \<and> (\<forall>a e. ctx = Some (a, e) \<longrightarrow> interruptTimeout < a)"
  then have c: "\<forall>a. map_option fst ctx = Some a \<longrightarrow> interruptTimeout < a" by auto
  from select_ready_timeout[OF c] a
  show "map fst (sendInterrupt t now oka okb ctx resp) = [Some (Errorf ''interrupt request timeout'')]"
    by (simp add: sendInterrupt_def Let_def stdin_Write_def interrupt_register_def)
  from select_ready_timeout[OF c] show "select_time (map_option fst ctx) None = interruptTimeout" by simp
  show "interruptTimeout = 5 * 1000000000" by (simp add: interruptTimeout_def)
qed

theorem sendInterrupt_unregisters_and_times_out_witness:
  "map fst (sendInterrupt (new_transport True) 1730000000000000000 True True None None)
     = [Some (Errorf ''interrupt request timeout'')]
   \<and> list_all (\<lambda>r. controlResp (snd r) (interrupt_requestID (new_transport True) 1730000000000000000) = None)
       (sendInterrupt (new_transport True) 1730000000000000000 True True None None)
   \<and> interrupt_requestID (new_transport True) 1730000000000000000 = ''req_1_1730000000000000000''"
proof -
  have h: "\<not> stdin_closed (new_transport True) \<and> True \<and> True \<and> (None :: (int \<times> ControlResponse) option) = None
      \<and> (\<forall>a e. (None :: (int \<times> error) option) = Some (a, e) \<longrightarrow> interruptTimeout < a)"
    by (simp add: new_transport_def)
  have rid: "interrupt_requestID (new_transport True) 1730000000000000000 = ''req_1_1730000000000000000''"
    by code_simp
  from sendInterrupt_unregisters_and_times_out[of "new_transport True" 1730000000000000000 True True None None] h rid
  show ?thesis by (auto simp: list_all_iff)
qed


section \<open>The states of the client\<close>


text \<open>
  Claim C7 says that streaming while unconnected fails with a not-connected error
  and that every operation after \<^verbatim>\<open>Close\<close> fails with a closed error. On a new
  client \<^verbatim>\<open>StreamMessages\<close> and \<^verbatim>\<open>ReceiveResponse\<close> return a channel that is
  already closed, whose receive is the end of the stream, and no error; after
  \<^verbatim>\<open>Close\<close>, a second \<^verbatim>\<open>Close\<close> returns nil, \<^verbatim>\<open>StreamMessages\<close> again returns a
  closed channel, and \<^verbatim>\<open>WaitForResult\<close> fails with the not-connected error.
\<close>

theorem unconnected_stream_is_closed_channel:
  "StreamMessages (NewClient []) = NewClosedChannel
   \<and> ReceiveResponse (NewClient []) = NewClosedChannel
   \<and> receive ([] :: Message list) True = EndOfStream
   \<and> Close (NewClient []) = Some (None, (NewClient [])\<lparr>closed := True, connected := False\<rparr>)
   \<and> Close ((NewClient [])\<lparr>closed := True, connected := False\<rparr>)
        = Some (None, (NewClient [])\<lparr>closed := True, connected := False\<rparr>)
   \<and> StreamMessages ((NewClient [])\<lparr>closed := True, connected := False\<rparr>) = NewClosedChannel
   \<and> WaitForResult ((NewClient [])\<lparr>closed := True, connected := False\<rparr>) []
        = Some ((None, Some (Errorf ''client is not connected, call Connect() first'')),
                (NewClient [])\<lparr>closed := True, connected := False\<rparr>)"
  by (simp add: StreamMessages_def ReceiveResponse_def NewClient_def receive_def Close_def
      WaitForResult_def)

text \<open>
  Claim C7, amended. \<^verbatim>\<open>Connect\<close> fails with the already-connected error on a
  connected client and with the closed error on a closed one, and connects an
  unconnected client whose transport starts. On a closed client \<^verbatim>\<open>SendMessage\<close>
  and \<^verbatim>\<open>SendInterrupt\<close> fail with the closed error and \<^verbatim>\<open>Close\<close> returns nil. On an
  unconnected client \<^verbatim>\<open>SendMessage\<close>, \<^verbatim>\<open>SendInterrupt\<close> and \<^verbatim>\<open>WaitForResult\<close> fail
  with the not-connected error. On a client that is not connected the streaming
  operations and the queue accessors return a channel that is already closed.
  \<^verbatim>\<open>Close\<close> leaves the client closed and not connected; a new client is neither.
\<close>

theorem client_state_machine:
  "(connected c \<longrightarrow>
      Connect c spawned prompt oka okb = (Some (Errorf ''client is already connected''), c))
   \<and> (\<not> connected c \<and> closed c \<longrightarrow>
      Connect c spawned prompt oka okb = (Some (Errorf ''client is closed''), c))
   \<and> (\<not> connected c \<and> \<not> closed c \<longrightarrow>
      (\<forall>t. spawned = Inr t \<longrightarrow>
         connected (snd (Connect c spawned prompt oka okb))
         \<and> \<not> closed (snd (Connect c spawned prompt oka okb))))
   \<and> (closed c \<longrightarrow>
      SendMessage c prompt oka okb = Some (Some (Errorf ''client is closed''), c)
      \<and> SendInterrupt c now oka okb ctx resp = Some [(Some (Errorf ''client is closed''), c)]
      \<and> Close c = Some (None, c))
   \<and> (\<not> closed c \<and> \<not> connected c \<longrightarrow>
      SendMessage c prompt oka okb
        = Some (Some (Errorf ''client is not connected, call Connect() first''), c)
      \<and> SendInterrupt c now oka okb ctx resp
        = Some [(Some (Errorf ''client is not connected, call Connect() first''), c)]
      \<and> WaitForResult c evs
        = Some ((None, Some (Errorf ''client is not connected, call Connect() first'')), c))
   \<and> (\<not> connected c \<longrightarrow>
      StreamMessages c = NewClosedChannel \<and> ReceiveMessages c = NewClosedChannel
      \<and> ReceiveResponse c = NewClosedChannel
      \<and> Client_Messages c = NewClosedChannel \<and> Client_Errors c = NewClosedChannel)
   \<and> (\<not> closed c \<longrightarrow> (\<forall>c' err. Close c = Some (err, c') \<longrightarrow> closed c' \<and> \<not> connected c'))
   \<and> \<not> connected (NewClient sessionID) \<and> \<not> closed (NewClient sessionID)"
  by (auto simp: Connect_def SendMessage_def SendInterrupt_def Close_def WaitForResult_def
      StreamMessages_def ReceiveMessages_def ReceiveResponse_def Client_Messages_def
      Client_Errors_def NewClient_def close_def
      split: sum.splits option.splits prod.splits if_splits)


theorem client_state_machine_witness:
  "Connect (snd (Connect (NewClient []) (Inr (new_transport True)) [] True True))
       (Inr (new_transport True)) [] True True
     = (Some (Errorf ''client is already connected''),
        snd (Connect (NewClient []) (Inr (new_transport True)) [] True True))
   \<and> SendMessage (NewClient []) ''hi'' True True
     = Some (Some (Errorf ''client is not connected, call Connect() first''), NewClient [])
   \<and> SendMessage ((NewClient [])\<lparr>closed := True\<rparr>) ''hi'' True True
     = Some (Some (Errorf ''client is closed''), (NewClient [])\<lparr>closed := True\<rparr>)
   \<and> StreamMessages (NewClient []) = NewClosedChannel"
proof -
  let ?c0 = "NewClient []"
  let ?c1 = "snd (Connect ?c0 (Inr (new_transport True)) [] True True)"
  let ?c2 = "?c0\<lparr>closed := True\<rparr>"
  note A = client_state_machine[where c = ?c0 and spawned = "Inr (new_transport True)" and prompt = "[]"
      and oka = True and okb = True and now = 0 and ctx = None and resp = None and evs = "[]"
      and sessionID = "[]"]
  note B = client_state_machine[where c = ?c1 and spawned = "Inr (new_transport True)" and prompt = "[]"
      and oka = True and okb = True and now = 0 and ctx = None and resp = None and evs = "[]"
      and sessionID = "[]"]
  note C = client_state_machine[where c = ?c0 and spawned = "Inr (new_transport True)" and prompt = "''hi''"
      and oka = True and okb = True and now = 0 and ctx = None and resp = None and evs = "[]"
      and sessionID = "[]"]
  note D = client_state_machine[where c = ?c2 and spawned = "Inr (new_transport True)" and prompt = "''hi''"
      and oka = True and okb = True and now = 0 and ctx = None and resp = None and evs = "[]"
      and sessionID = "[]"]
  have h0: "\<not> connected ?c0 \<and> \<not> closed ?c0"
    by (simp add: NewClient_def)
  have h1: "connected ?c1"
    using A[THEN conjunct2, THEN conjunct2, THEN conjunct1] h0 by simp
  have w1: "Connect ?c1 (Inr (new_transport True)) [] True True
      = (Some (Errorf ''client is already connected''), ?c1)"
    using B[THEN conjunct1] h1 by simp
  have w2: "SendMessage ?c0 ''hi'' True True
      = Some (Some (Errorf ''client is not connected, call Connect() first''), ?c0)"
    using C[THEN conjunct2, THEN conjunct2, THEN conjunct2, THEN conjunct2, THEN conjunct1] h0
    by simp
  have w3: "SendMessage ?c2 ''hi'' True True = Some (Some (Errorf ''client is closed''), ?c2)"
    using D[THEN conjunct2, THEN conjunct2, THEN conjunct2, THEN conjunct1] by simp
  have w4: "StreamMessages ?c0 = NewClosedChannel"
    using A[THEN conjunct2, THEN conjunct2, THEN conjunct2, THEN conjunct2, THEN conjunct2,
        THEN conjunct1] h0 by simp
  from w1 w2 w3 w4 show ?thesis by simp
qed


section \<open>Closing once\<close>


lemma close_inv_initial: "unclosed t \<Longrightarrow> close_inv None (initial t)"
  by (simp add: close_inv_def once_inv_def caller_inv_def initial_def unclosed_def)

lemma teardown_done_Some:
  "teardown_done t = Some t' \<Longrightarrow>
   closeOnce t' = closeOnce t \<and> messages_closed t' = messages_closed t \<and> errors_closed t' = errors_closed t"
  by (auto simp: teardown_done_def split: if_splits)

lemma teardown_messages_Some:
  "teardown_messages t = Some t' \<Longrightarrow>
   closeOnce t' = closeOnce t \<and> messages_closed t' \<and> errors_closed t' = errors_closed t"
  by (auto simp: teardown_messages_def split: if_splits)

lemma teardown_errors_Some:
  "teardown_errors t = Some t' \<Longrightarrow>
   closeOnce t' = closeOnce t \<and> messages_closed t' = messages_closed t \<and> errors_closed t'"
  by (auto simp: teardown_errors_def split: if_splits)

lemma close_invI: "once_inv h s \<Longrightarrow> (\<And>j. caller_inv h s j) \<Longrightarrow> close_inv h s"
  by (simp add: close_inv_def)

lemma close_inv_step:
  assumes "step s s'" and "close_inv h s"
  shows "\<exists>h'. close_inv h' s'"
proof -
  have G: "once_inv h s" and L: "caller_inv h s j" for j
    using assms(2) by (simp_all add: close_inv_def)
  from assms(1) show ?thesis
  proof (cases rule: step.cases)
    case (load_set i)
    have "close_inv h s'"
    proof (rule close_invI)
      show "once_inv h s'" using G L[of i] load_set
        by (simp add: once_inv_def caller_inv_def running_def split: option.splits)
      show "caller_inv h s' j" for j using L[of j] L[of i] load_set
        by (cases "j = i") (simp_all add: caller_inv_def split: pc.splits)
    qed
    then show ?thesis ..
  next
    case (load_unset i)
    have "close_inv h s'"
    proof (rule close_invI)
      show "once_inv h s'" using G L[of i] load_unset
        by (simp add: once_inv_def caller_inv_def running_def split: option.splits)
      show "caller_inv h s' j" for j using L[of j] L[of i] load_unset
        by (cases "j = i") (simp_all add: caller_inv_def split: pc.splits)
    qed
    then show ?thesis ..
  next
    case (lock i)
    then have hn: "h = None" using G by (simp add: once_inv_def)
    have "close_inv (Some i) s'"
    proof (rule close_invI)
      show "once_inv (Some i) s'" using G lock hn
        by (simp add: once_inv_def running_def)
      show "caller_inv (Some i) s' j" for j using L[of j] lock hn
        by (cases "j = i") (simp_all add: caller_inv_def split: pc.splits)
    qed
    then show ?thesis ..
  next
    case (check_set i)
    have "close_inv h s'"
    proof (rule close_invI)
      show "once_inv h s'" using G L[of i] check_set
        by (simp add: once_inv_def caller_inv_def running_def)
      show "caller_inv h s' j" for j using L[of j] L[of i] check_set
        by (cases "j = i") (simp_all add: caller_inv_def split: pc.splits)
    qed
    then show ?thesis ..
  next
    case (check_unset i)
    have "close_inv h s'"
    proof (rule close_invI)
      show "once_inv h s'" using G L[of i] check_unset
        by (simp add: once_inv_def caller_inv_def running_def)
      show "caller_inv h s' j" for j using L[of j] L[of i] G check_unset
        by (cases "j = i")
           (simp_all add: caller_inv_def once_inv_def running_def unclosed_def split: pc.splits)
    qed
    then show ?thesis ..
  next
    case (run_done i t')
    note td = teardown_done_Some[OF run_done(3)]
    have "close_inv h s'"
    proof (rule close_invI)
      show "once_inv h s'" using G L[of i] run_done td
        by (simp add: once_inv_def caller_inv_def running_def)
      show "caller_inv h s' j" for j using L[of j] L[of i] run_done td
        by (cases "j = i") (simp_all add: caller_inv_def split: pc.splits)
    qed
    then show ?thesis ..
  next
    case (run_done_panic i)
    then show ?thesis using L[of i] by (simp add: caller_inv_def teardown_done_def split: if_splits)
  next
    case (run_messages i t')
    note td = teardown_messages_Some[OF run_messages(3)]
    have "close_inv h s'"
    proof (rule close_invI)
      show "once_inv h s'" using G L[of i] run_messages td
        by (simp add: once_inv_def caller_inv_def running_def)
      show "caller_inv h s' j" for j using L[of j] L[of i] run_messages td
        by (cases "j = i") (simp_all add: caller_inv_def split: pc.splits)
    qed
    then show ?thesis ..
  next
    case (run_messages_panic i)
    then show ?thesis using L[of i] by (simp add: caller_inv_def teardown_messages_def split: if_splits)
  next
    case (run_errors i t')
    note td = teardown_errors_Some[OF run_errors(3)]
    have "close_inv h s'"
    proof (rule close_invI)
      show "once_inv h s'" using G L[of i] run_errors td
        by (simp add: once_inv_def caller_inv_def running_def)
      show "caller_inv h s' j" for j using L[of j] L[of i] run_errors td
        by (cases "j = i") (simp_all add: caller_inv_def split: pc.splits)
    qed
    then show ?thesis ..
  next
    case (run_errors_panic i)
    then show ?thesis using L[of i] by (simp add: caller_inv_def teardown_errors_def split: if_splits)
  next
    case (store i)
    have "close_inv h s'"
    proof (rule close_invI)
      show "once_inv h s'" using G L[of i] store
        by (simp add: once_inv_def caller_inv_def running_def)
      show "caller_inv h s' j" for j using L[of j] L[of i] store
        by (cases "j = i") (simp_all add: caller_inv_def split: pc.splits)
    qed
    then show ?thesis ..
  next
    case (unlock i)
    have "close_inv None s'"
    proof (rule close_invI)
      show "once_inv None s'" using G L[of i] unlock
        by (simp add: once_inv_def caller_inv_def running_def)
      show "caller_inv None s' j" for j using L[of j] L[of i] unlock
        by (cases "j = i") (simp_all add: caller_inv_def split: pc.splits)
    qed
    then show ?thesis ..
  qed
qed

lemma close_inv_reachable: "reachable s0 s \<Longrightarrow> \<exists>h. close_inv h s0 \<Longrightarrow> \<exists>h. close_inv h s"
  by (induction rule: reachable.induct) (auto dest: close_inv_step)


lemma close_twice:
  assumes "unclosed t"
  shows "\<exists>t1. close t = Some (None, t1) \<and> close t1 = Some (None, t1)
     \<and> messages_closed t1 \<and> errors_closed t1 \<and> done_closed t1"
  using assms
  by (simp add: close_def teardown_def teardown_done_def teardown_messages_def teardown_errors_def
      unclosed_def)

lemma reachable_safe:
  assumes "unclosed t" and "reachable (initial t) s"
  shows "(\<forall>i. pcs s i \<noteq> Panicked) \<and> runs s \<le> 1
     \<and> (\<forall>i. pcs s i = Returned \<longrightarrow> runs s = 1 \<and> messages_closed (tr s) \<and> errors_closed (tr s))"
proof -
  from close_inv_reachable[OF assms(2)] close_inv_initial[OF assms(1)]
  obtain h where "close_inv h s" by blast
  then have G: "once_inv h s" and L: "caller_inv h s i" for i
    by (simp_all add: close_inv_def)
  have a: "pcs s i \<noteq> Panicked" for i using L[of i] by (auto simp: caller_inv_def)
  have b: "runs s \<le> 1"
  proof (cases "closeOnce (tr s)")
    case True
    then show ?thesis using G by (simp add: once_inv_def)
  next
    case False
    show ?thesis
    proof (cases h)
      case None
      then show ?thesis using G False by (simp add: once_inv_def)
    next
      case (Some i)
      then show ?thesis using G False L[of i]
        by (cases "running (pcs s i)")
           (auto simp: once_inv_def caller_inv_def running_def split: pc.splits)
    qed
  qed
  have c: "runs s = 1 \<and> messages_closed (tr s) \<and> errors_closed (tr s)" if "pcs s i = Returned" for i
    using L[of i] G that by (simp add: caller_inv_def once_inv_def)
  from a b c show ?thesis by blast
qed

lemma reachable_trans_step: "reachable s0 s \<Longrightarrow> step s s' \<Longrightarrow> reachable s0 s'"
  by (rule reach_step)

lemma two_callers_return:
  assumes "unclosed t"
  shows "\<exists>s. reachable (initial t) s \<and> pcs s 0 = Returned \<and> pcs s (Suc 0) = Returned"
proof -
  define s1 where "s1 = (initial t)\<lparr>pcs := (pcs (initial t))(0 := Lock)\<rparr>"
  define s2 where "s2 = s1\<lparr>pcs := (pcs s1)(Suc 0 := Lock)\<rparr>"
  define s3 where "s3 = s2\<lparr>mutex := True, pcs := (pcs s2)(0 := Check)\<rparr>"
  define s4 where "s4 = s3\<lparr>pcs := (pcs s3)(0 := RunDone), runs := Suc (runs s3)\<rparr>"
  define t5 where "t5 = t\<lparr>done_closed := True, stdin_closed := True, process_killed := True,
                   stdout_closed := True, stderr_closed := True, process_waited := True\<rparr>"
  define s5 where "s5 = s4\<lparr>tr := t5, pcs := (pcs s4)(0 := RunMessages)\<rparr>"
  define s6 where "s6 = s5\<lparr>tr := t5\<lparr>messages_closed := True\<rparr>, pcs := (pcs s5)(0 := RunErrors)\<rparr>"
  define s7 where "s7 = s6\<lparr>tr := t5\<lparr>messages_closed := True, errors_closed := True\<rparr>,
                        pcs := (pcs s6)(0 := Store)\<rparr>"
  define s8 where "s8 = s7\<lparr>tr := (tr s7)\<lparr>closeOnce := True\<rparr>, pcs := (pcs s7)(0 := Unlock)\<rparr>"
  define s9 where "s9 = s8\<lparr>mutex := False, pcs := (pcs s8)(0 := Returned)\<rparr>"
  define s10 where "s10 = s9\<lparr>mutex := True, pcs := (pcs s9)(Suc 0 := Check)\<rparr>"
  define s11 where "s11 = s10\<lparr>pcs := (pcs s10)(Suc 0 := Unlock)\<rparr>"
  define s12 where "s12 = s11\<lparr>mutex := False, pcs := (pcs s11)(Suc 0 := Returned)\<rparr>"
  note defs = s1_def s2_def s3_def s4_def s5_def s6_def s7_def s8_def s9_def s10_def s11_def
    s12_def t5_def initial_def
  have u: "\<not> closeOnce t" "\<not> done_closed t" "\<not> messages_closed t" "\<not> errors_closed t"
    using assms by (simp_all add: unclosed_def)
  have "step (initial t) s1" unfolding s1_def
    by (rule load_unset) (simp_all add: initial_def u)
  then have r1: "reachable (initial t) s1" by (rule reach_step[OF reach_refl])
  have "step s1 s2" unfolding s2_def
    by (rule load_unset) (simp_all add: s1_def initial_def u)
  with r1 have r2: "reachable (initial t) s2" by (rule reach_step)
  have "step s2 s3" unfolding s3_def
    by (rule lock) (simp_all add: s1_def s2_def initial_def u)
  with r2 have r3: "reachable (initial t) s3" by (rule reach_step)
  have "step s3 s4" unfolding s4_def
    by (rule check_unset) (simp_all add: s1_def s2_def s3_def initial_def u)
  with r3 have r4: "reachable (initial t) s4" by (rule reach_step)
  have "step s4 s5" unfolding s5_def
    by (rule run_done) (simp_all add: s1_def s2_def s3_def s4_def t5_def initial_def u teardown_done_def)
  with r4 have r5: "reachable (initial t) s5" by (rule reach_step)
  have "step s5 s6" unfolding s6_def
    by (rule run_messages)
       (simp_all add: s1_def s2_def s3_def s4_def s5_def t5_def initial_def u teardown_messages_def)
  with r5 have r6: "reachable (initial t) s6" by (rule reach_step)
  have "step s6 s7" unfolding s7_def
    by (rule run_errors)
       (simp_all add: s1_def s2_def s3_def s4_def s5_def s6_def t5_def initial_def u teardown_errors_def)
  with r6 have r7: "reachable (initial t) s7" by (rule reach_step)
  have "step s7 s8" unfolding s8_def
    by (rule store) (simp_all add: s1_def s2_def s3_def s4_def s5_def s6_def s7_def initial_def)
  with r7 have r8: "reachable (initial t) s8" by (rule reach_step)
  have "step s8 s9" unfolding s9_def
    by (rule unlock) (simp_all add: s1_def s2_def s3_def s4_def s5_def s6_def s7_def s8_def initial_def)
  with r8 have r9: "reachable (initial t) s9" by (rule reach_step)
  have "step s9 s10" unfolding s10_def
    by (rule lock)
       (simp_all add: s1_def s2_def s3_def s4_def s5_def s6_def s7_def s8_def s9_def initial_def)
  with r9 have r10: "reachable (initial t) s10" by (rule reach_step)
  have "step s10 s11" unfolding s11_def
    by (rule check_set)
       (simp_all add: s1_def s2_def s3_def s4_def s5_def s6_def s7_def s8_def s9_def s10_def initial_def)
  with r10 have r11: "reachable (initial t) s11" by (rule reach_step)
  have "step s11 s12" unfolding s12_def
    by (rule unlock)
       (simp_all add: s1_def s2_def s3_def s4_def s5_def s6_def s7_def s8_def s9_def s10_def s11_def
          initial_def)
  with r11 have r12: "reachable (initial t) s12" by (rule reach_step)
  have "pcs s12 0 = Returned \<and> pcs s12 (Suc 0) = Returned"
    by (simp add: defs)
  with r12 show ?thesis by blast
qed

text \<open>
  Claim C5. On a transport that has not been closed, \<^verbatim>\<open>close\<close> called twice in a row
  returns nil both times, the second call changes nothing, and both queues are
  closed afterwards, so that a receive on a drained queue is the end of the stream.
  With any number of concurrent callers, in every state the interleavings can reach
  nothing has panicked, the function under \<^verbatim>\<open>closeOnce\<close> has been started at most
  once, and as soon as any caller has returned it has run exactly once and both
  queues are closed. Two callers that both find the flag unset can both return.
\<close>

theorem close_idempotent:
  assumes "unclosed t"
  shows "(\<exists>t1. close t = Some (None, t1) \<and> close t1 = Some (None, t1)
            \<and> messages_closed t1 \<and> errors_closed t1
            \<and> receive ([] :: Message list) (messages_closed t1) = EndOfStream
            \<and> receive ([] :: error list) (errors_closed t1) = EndOfStream)
    \<and> (\<forall>s. reachable (initial t) s \<longrightarrow>
          (\<forall>i. pcs s i \<noteq> Panicked) \<and> runs s \<le> 1
          \<and> (\<forall>i. pcs s i = Returned \<longrightarrow>
                runs s = 1 \<and> messages_closed (tr s) \<and> errors_closed (tr s)))
    \<and> (\<exists>s. reachable (initial t) s \<and> pcs s 0 = Returned \<and> pcs s (Suc 0) = Returned)"
proof -
  from close_twice[OF assms] obtain t1 where
    "close t = Some (None, t1)" "close t1 = Some (None, t1)" "messages_closed t1" "errors_closed t1"
    by blast
  then have a: "\<exists>t1. close t = Some (None, t1) \<and> close t1 = Some (None, t1)
            \<and> messages_closed t1 \<and> errors_closed t1
            \<and> receive ([] :: Message list) (messages_closed t1) = EndOfStream
            \<and> receive ([] :: error list) (errors_closed t1) = EndOfStream"
    by (intro exI[of _ t1]) (simp add: receive_def)
  have b: "\<forall>s. reachable (initial t) s \<longrightarrow>
          (\<forall>i. pcs s i \<noteq> Panicked) \<and> runs s \<le> 1
          \<and> (\<forall>i. pcs s i = Returned \<longrightarrow>
                runs s = 1 \<and> messages_closed (tr s) \<and> errors_closed (tr s))"
    using reachable_safe[OF assms] by blast
  have c: "\<exists>s. reachable (initial t) s \<and> pcs s 0 = Returned \<and> pcs s (Suc 0) = Returned"
    by (rule two_callers_return[OF assms])
  from a b c show ?thesis by (intro conjI)
qed

theorem close_idempotent_witness:
  "unclosed (new_transport True)
   \<and> (\<exists>t1. close (new_transport True) = Some (None, t1) \<and> close t1 = Some (None, t1)
         \<and> messages_closed t1 \<and> errors_closed t1)
   \<and> (\<exists>s. reachable (initial (new_transport True)) s \<and> pcs s 0 = Returned
         \<and> pcs s (Suc 0) = Returned \<and> runs s = 1 \<and> messages_closed (tr s) \<and> errors_closed (tr s))"
proof -
  have h: "unclosed (new_transport True)" by (simp add: unclosed_def new_transport_def)
  note A = close_idempotent[OF h]
  from A obtain t1 where
    "close (new_transport True) = Some (None, t1)" "close t1 = Some (None, t1)"
    "messages_closed t1" "errors_closed t1"
    by blast
  moreover from A obtain s where
    s: "reachable (initial (new_transport True)) s" "pcs s 0 = Returned" "pcs s (Suc 0) = Returned"
    by blast
  moreover from A s(1,2) have "runs s = 1 \<and> messages_closed (tr s) \<and> errors_closed (tr s)"
    by blast
  ultimately show ?thesis using h by blast
qed


end
